theory Spec2Isabelle
  imports Complex_Main
begin

section \<open>Python values and exceptions\<close>

text \<open>
  The client of \<^verbatim>\<open>qustodioapi.py\<close> works on decoded JSON: every value it reads from a
  response is a Python \<^verbatim>\<open>None\<close>, \<^verbatim>\<open>bool\<close>, \<^verbatim>\<open>int\<close>, \<^verbatim>\<open>float\<close>, \<^verbatim>\<open>str\<close>, \<^verbatim>\<open>list\<close> or \<^verbatim>\<open>dict\<close>
  with string keys. \<open>JNull\<close> stands for \<^verbatim>\<open>None\<close>. \<open>JObj\<close> holds the items of the decoded
  dict (keys unique), looked up with \<open>map_of\<close>.

  Floats are kept opaque: the type \<open>'f\<close> is the set of IEEE doubles and the operations
  Python performs on them are the fields of \<open>float_ops\<close>. Nothing is assumed about them.
  Non-finite literals (\<^verbatim>\<open>NaN\<close>), which Python compares by identity inside a dict, are
  outside the model.

  Only exceptions derived from \<^verbatim>\<open>Exception\<close> are modelled; task cancellation, which is a
  \<^verbatim>\<open>BaseException\<close> and passes every handler of this file, is not.
\<close>

datatype exn =
    TimeoutError | ClientError | KeyError | TypeError | AttributeError
  | IndexError | OverflowError | ValueError

datatype 'f json =
    JNull
  | JBool bool
  | JInt int
  | JFloat 'f
  | JStr string
  | JList "'f json list"
  | JObj "(string \<times> 'f json) list"

record 'f float_ops =
  float_integral :: "'f \<Rightarrow> int option"
  float_of_int :: "int \<Rightarrow> 'f option"
  float_add :: "'f \<Rightarrow> 'f \<Rightarrow> 'f"
  int_truediv :: "int \<Rightarrow> int \<Rightarrow> 'f option"
  float_truediv :: "'f \<Rightarrow> int \<Rightarrow> 'f"
  float_round1 :: "'f \<Rightarrow> 'f"
  float_micros :: "'f \<Rightarrow> exn + int"

text \<open>
  \<open>float_integral f\<close> is the integer a float without fractional part is equal to (so that
  it hashes and compares like that \<^verbatim>\<open>int\<close>); \<open>float_of_int\<close> and \<open>int_truediv\<close> are
  \<^verbatim>\<open>float(n)\<close> and \<^verbatim>\<open>a / b\<close> on ints, \<open>None\<close> for their \<^verbatim>\<open>OverflowError\<close>;
  \<open>float_round1 x\<close> is \<^verbatim>\<open>round(x, 1)\<close>; \<open>float_micros f\<close> is the number of microseconds of
  \<^verbatim>\<open>timedelta(seconds=f)\<close> before its range check.
\<close>

text \<open>Truth value of a Python object, as \<^verbatim>\<open>if\<close> and \<^verbatim>\<open>and\<close> take it.\<close>

fun py_truthy :: "'f float_ops \<Rightarrow> 'f json \<Rightarrow> bool" where
  "py_truthy ops JNull = False"
| "py_truthy ops (JBool b) = b"
| "py_truthy ops (JInt n) = (n \<noteq> 0)"
| "py_truthy ops (JFloat f) = (float_integral ops f \<noteq> Some 0)"
| "py_truthy ops (JStr s) = (s \<noteq> [])"
| "py_truthy ops (JList xs) = (xs \<noteq> [])"
| "py_truthy ops (JObj kvs) = (kvs \<noteq> [])"

text \<open>\<^verbatim>\<open>obj[k]\<close> with a string \<open>k\<close>: only a dict can be subscripted by a string.\<close>

fun py_getitem :: "'f json \<Rightarrow> string \<Rightarrow> exn + 'f json" where
  "py_getitem (JObj kvs) k = (case map_of kvs k of None \<Rightarrow> Inl KeyError | Some v \<Rightarrow> Inr v)"
| "py_getitem _ k = Inl TypeError"

text \<open>\<^verbatim>\<open>obj.get(k, d)\<close>: only a dict has the method.\<close>

fun py_get :: "'f json \<Rightarrow> string \<Rightarrow> 'f json \<Rightarrow> exn + 'f json" where
  "py_get (JObj kvs) k d = (case map_of kvs k of None \<Rightarrow> Inr d | Some v \<Rightarrow> Inr v)"
| "py_get _ k d = Inl AttributeError"

definition is_substring :: "string \<Rightarrow> string \<Rightarrow> bool" where
  "is_substring k s = list_ex (\<lambda>i. take (length k) (drop i s) = k) [0..<Suc (length s)]"

text \<open>\<^verbatim>\<open>k in obj\<close> with a string \<open>k\<close>: key of a dict, element of a list, substring of a string.\<close>

fun py_contains :: "string \<Rightarrow> 'f json \<Rightarrow> exn + bool" where
  "py_contains k (JObj kvs) = Inr (map_of kvs k \<noteq> None)"
| "py_contains k (JList xs) = Inr (JStr k \<in> set xs)"
| "py_contains k (JStr s) = Inr (is_substring k s)"
| "py_contains k _ = Inl TypeError"

text \<open>\<^verbatim>\<open>for x in obj\<close>: a dict yields its keys, a string its characters.\<close>

fun py_iter :: "'f json \<Rightarrow> exn + 'f json list" where
  "py_iter (JList xs) = Inr xs"
| "py_iter (JObj kvs) = Inr (map (\<lambda>kv. JStr (fst kv)) kvs)"
| "py_iter (JStr s) = Inr (map (\<lambda>ch. JStr [ch]) s)"
| "py_iter _ = Inl TypeError"

text \<open>
  Dictionary keys. Python hashes \<^verbatim>\<open>True\<close>, \<^verbatim>\<open>1\<close> and \<^verbatim>\<open>1.0\<close> to the same key; lists and
  dicts are unhashable.
\<close>

datatype 'f key = KNone | KInt int | KFloat 'f | KStr string

fun py_key :: "'f float_ops \<Rightarrow> 'f json \<Rightarrow> exn + 'f key" where
  "py_key ops JNull = Inr KNone"
| "py_key ops (JBool b) = Inr (KInt (if b then 1 else 0))"
| "py_key ops (JInt n) = Inr (KInt n)"
| "py_key ops (JFloat f) =
     (case float_integral ops f of Some n \<Rightarrow> Inr (KInt n) | None \<Rightarrow> Inr (KFloat f))"
| "py_key ops (JStr s) = Inr (KStr s)"
| "py_key ops (JList xs) = Inl TypeError"
| "py_key ops (JObj kvs) = Inl TypeError"

section \<open>The remote service and the clock\<close>

text \<open>
  A request is identified by its endpoint and the values formatted into its URL (the
  login request by the credentials of its form body). The service answers a request by
  raising (timeout, transport error) or by a response with a status; \<^verbatim>\<open>response.json()\<close>
  and \<^verbatim>\<open>response.text()\<close> may raise in turn. The service is any function of the request,
  which covers every real one: the bearer token and the fixed headers are the same for
  all requests of one call.

  Time stamps are microseconds since \<^verbatim>\<open>datetime.min\<close>.
\<close>

datatype 'f request =
    PostLogin string string
  | GetAccount
  | GetDevices "'f json"
  | GetProfiles "'f json"
  | GetRules "'f json" "'f json"
  | GetHourlySummary "'f json" "'f json" string

datatype 'f http_result =
    Failed exn
  | Responded int "exn + 'f json" "exn + string"

record 'f env =
  server :: "'f request \<Rightarrow> 'f http_result"
  now_check :: int
  now_issue :: int
  weekday :: nat
  today :: string

text \<open>
  \<open>now_check\<close> is \<^verbatim>\<open>datetime.now()\<close> read by the test of the cached token, \<open>now_issue\<close> the
  one read when a new expiry is computed, \<open>weekday\<close> is \<^verbatim>\<open>datetime.today().weekday()\<close> and
  \<open>today\<close> is \<^verbatim>\<open>date.today()\<close> as formatted into the URL.
\<close>

definition timedelta_range :: "int \<Rightarrow> exn + int" where
  "timedelta_range us =
     (if - (999999999 * 86400000000) \<le> us \<and> us < 1000000000 * 86400000000
      then Inr us else Inl OverflowError)"

text \<open>\<^verbatim>\<open>timedelta(seconds=v)\<close>, in microseconds.\<close>

fun timedelta_seconds :: "'f float_ops \<Rightarrow> 'f json \<Rightarrow> exn + int" where
  "timedelta_seconds ops (JInt n) = timedelta_range (n * 1000000)"
| "timedelta_seconds ops (JBool b) = timedelta_range (if b then 1000000 else 0)"
| "timedelta_seconds ops (JFloat f) =
     (case float_micros ops f of Inl e \<Rightarrow> Inl e | Inr us \<Rightarrow> timedelta_range us)"
| "timedelta_seconds ops _ = Inl TypeError"

definition datetime_max :: int where
  "datetime_max = 3652059 * 86400000000 - 1"

text \<open>\<^verbatim>\<open>datetime + timedelta\<close>.\<close>

definition datetime_add :: "int \<Rightarrow> int \<Rightarrow> exn + int" where
  "datetime_add t d =
     (if 0 \<le> t + d \<and> t + d \<le> datetime_max then Inr (t + d) else Inl OverflowError)"

section \<open>The client\<close>

text \<open>
  Modelled from the spec: the three result codes of \<^verbatim>\<open>const.py\<close>, which is not among the
  sources; the spec names them as three distinct results.
\<close>

datatype login_result = LOGIN_RESULT_OK | LOGIN_RESULT_UNAUTHORIZED | LOGIN_RESULT_ERROR

text \<open>
  The fields of \<^verbatim>\<open>QustodioApi\<close>. \<open>JNull\<close> and \<open>None\<close> are Python's \<^verbatim>\<open>None\<close>; \<open>session\<close> tells
  whether \<^verbatim>\<open>_session\<close> is set. \<open>requests\<close> is not a field of the class: it records the
  network requests performed so far, oldest first.
\<close>

record 'f client =
  username :: string
  password :: string
  session :: bool
  access_token :: "'f json"
  expires_in :: "int option"
  account_id :: "'f json"
  account_uid :: "'f json"
  requests :: "'f request list"

definition init :: "string \<Rightarrow> string \<Rightarrow> 'f client" where
  "init u p = \<lparr>username = u, password = p, session = False, access_token = JNull,
     expires_in = None, account_id = JNull, account_uid = JNull, requests = []\<rparr>"

subsection \<open>login\<close>

text \<open>The test of lines 47-51.\<close>

definition token_cached :: "'f env \<Rightarrow> 'f client \<Rightarrow> bool" where
  "token_cached env c =
     (access_token c \<noteq> JNull \<and>
      (case expires_in c of None \<Rightarrow> False | Some t \<Rightarrow> t > now_check env))"

text \<open>The three handlers of lines 92-100.\<close>

fun login_except :: "exn \<Rightarrow> login_result" where
  "login_except TimeoutError = LOGIN_RESULT_ERROR"
| "login_except ClientError = LOGIN_RESULT_ERROR"
| "login_except _ = LOGIN_RESULT_ERROR"

text \<open>Lines 86-88: the expiry computed from the response.\<close>

definition new_expiry :: "'f float_ops \<Rightarrow> 'f env \<Rightarrow> 'f json \<Rightarrow> exn + int" where
  "new_expiry ops env response_data =
     (case py_get response_data ''expires_in'' (JInt 3600) of
        Inl e \<Rightarrow> Inl e
      | Inr v \<Rightarrow>
          (case timedelta_seconds ops v of
             Inl e \<Rightarrow> Inl e
           | Inr d \<Rightarrow> datetime_add (now_issue env) d))"

text \<open>Lines 79-90: a response with status 200.\<close>

definition login_ok_response ::
  "'f float_ops \<Rightarrow> 'f env \<Rightarrow> 'f client \<Rightarrow> 'f json \<Rightarrow> (exn + login_result) \<times> 'f client" where
  "login_ok_response ops env c response_data =
     (case py_contains ''access_token'' response_data of
        Inl e \<Rightarrow> (Inl e, c)
      | Inr False \<Rightarrow> (Inr LOGIN_RESULT_ERROR, c)
      | Inr True \<Rightarrow>
          (case py_getitem response_data ''access_token'' of
             Inl e \<Rightarrow> (Inl e, c)
           | Inr tok \<Rightarrow>
               (case new_expiry ops env response_data of
                  Inl e \<Rightarrow> (Inl e, c\<lparr>access_token := tok\<rparr>)
                | Inr t \<Rightarrow>
                    (Inr LOGIN_RESULT_OK, c\<lparr>access_token := tok, expires_in := Some t\<rparr>))))"

text \<open>Lines 65-90: the body of the \<^verbatim>\<open>try\<close>.\<close>

definition login_try ::
  "'f float_ops \<Rightarrow> 'f env \<Rightarrow> 'f client \<Rightarrow> (exn + login_result) \<times> 'f client" where
  "login_try ops env c =
     (let rq = PostLogin (username c) (password c);
          c1 = c\<lparr>requests := requests c @ [rq]\<rparr>
      in case server env rq of
           Failed e \<Rightarrow> (Inl e, c1)
         | Responded status body text \<Rightarrow>
             if status = 401 then (Inr LOGIN_RESULT_UNAUTHORIZED, c1)
             else if status \<noteq> 200 then
               (case text of Inl e \<Rightarrow> (Inl e, c1) | Inr _ \<Rightarrow> (Inr LOGIN_RESULT_ERROR, c1))
             else
               (case body of
                  Inl e \<Rightarrow> (Inl e, c1)
                | Inr response_data \<Rightarrow> login_ok_response ops env c1 response_data))"

definition login :: "'f float_ops \<Rightarrow> 'f env \<Rightarrow> 'f client \<Rightarrow> login_result \<times> 'f client" where
  "login ops env c =
     (if token_cached env c then (LOGIN_RESULT_OK, c)
      else
        (case login_try ops env c of
           (Inl e, c') \<Rightarrow> (login_except e, c')
         | (Inr r, c') \<Rightarrow> (r, c')))"

subsection \<open>get_data\<close>

text \<open>
  The body of the \<^verbatim>\<open>try\<close> either raises, or leaves through a \<^verbatim>\<open>return data\<close>, or goes on
  with a value.
\<close>

datatype 'a step = Raised exn | Returned | Continue 'a

definition and_then :: "exn + 'a \<Rightarrow> ('a \<Rightarrow> exn + 'b) \<Rightarrow> exn + 'b" where
  "and_then m f = (case m of Inl e \<Rightarrow> Inl e | Inr x \<Rightarrow> f x)"

text \<open>Lines 124-131: the account.\<close>

definition get_account :: "'f env \<Rightarrow> 'f client \<Rightarrow> unit step \<times> 'f client" where
  "get_account env c =
     (let c1 = c\<lparr>requests := requests c @ [GetAccount]\<rparr>
      in case server env GetAccount of
           Failed e \<Rightarrow> (Raised e, c1)
         | Responded status body text \<Rightarrow>
             if status \<noteq> 200 then (Returned, c1)
             else
               (case body of
                  Inl e \<Rightarrow> (Raised e, c1)
                | Inr account_data \<Rightarrow>
                    (case py_getitem account_data ''id'' of
                       Inl e \<Rightarrow> (Raised e, c1)
                     | Inr i \<Rightarrow>
                         (case py_get account_data ''uid'' i of
                            Inl e \<Rightarrow> (Raised e, c1\<lparr>account_id := i\<rparr>)
                          | Inr u \<Rightarrow>
                              (Continue (), c1\<lparr>account_id := i, account_uid := u\<rparr>)))))"

text \<open>Line 142: the dict comprehension; a later device replaces an earlier one of the same id.\<close>

fun devices_dict ::
  "'f float_ops \<Rightarrow> 'f json list \<Rightarrow> ('f key \<rightharpoonup> 'f json) \<Rightarrow> exn + ('f key \<rightharpoonup> 'f json)" where
  "devices_dict ops [] m = Inr m"
| "devices_dict ops (device # rest) m =
     (case py_getitem device ''id'' of
        Inl e \<Rightarrow> Inl e
      | Inr i \<Rightarrow>
          (case py_key ops i of
             Inl e \<Rightarrow> Inl e
           | Inr k \<Rightarrow> devices_dict ops rest (m(k \<mapsto> device))))"

text \<open>Lines 137-144: the body of the inner \<^verbatim>\<open>try\<close>; \<open>None\<close> leaves \<^verbatim>\<open>devices\<close> as it is.\<close>

definition get_devices_try ::
  "'f float_ops \<Rightarrow> 'f env \<Rightarrow> 'f request \<Rightarrow> exn + ('f key \<rightharpoonup> 'f json) option" where
  "get_devices_try ops env rq =
     (case server env rq of
        Failed e \<Rightarrow> Inl e
      | Responded status body text \<Rightarrow>
          if status = 200 then
            and_then body (\<lambda>devices_data.
            and_then (py_iter devices_data) (\<lambda>ds.
            and_then (devices_dict ops ds Map.empty) (\<lambda>m. Inr (Some m))))
          else Inr None)"

text \<open>Lines 135-146.\<close>

definition get_devices ::
  "'f float_ops \<Rightarrow> 'f env \<Rightarrow> 'f client \<Rightarrow> ('f key \<rightharpoonup> 'f json) \<times> 'f client" where
  "get_devices ops env c =
     (let rq = GetDevices (account_id c);
          c1 = c\<lparr>requests := requests c @ [rq]\<rparr>
      in case get_devices_try ops env rq of
           Inl e \<Rightarrow> (Map.empty, c1)
         | Inr None \<Rightarrow> (Map.empty, c1)
         | Inr (Some m) \<Rightarrow> (m, c1))"

text \<open>Lines 150-157: the profile list.\<close>

definition get_profiles :: "'f env \<Rightarrow> 'f client \<Rightarrow> 'f json step \<times> 'f client" where
  "get_profiles env c =
     (let rq = GetProfiles (account_id c);
          c1 = c\<lparr>requests := requests c @ [rq]\<rparr>
      in case server env rq of
           Failed e \<Rightarrow> (Raised e, c1)
         | Responded status body text \<Rightarrow>
             if status \<noteq> 200 then (Returned, c1)
             else
               (case body of
                  Inl e \<Rightarrow> (Raised e, c1)
                | Inr profiles_data \<Rightarrow> (Continue profiles_data, c1)))"

text \<open>Lines 159-160.\<close>

definition days :: "string list" where
  "days = [''mon'', ''tue'', ''wed'', ''thu'', ''fri'', ''sat'', ''sun'']"

definition day_of_week :: "'f env \<Rightarrow> exn + string" where
  "day_of_week env =
     (if weekday env < length days then Inr (days ! weekday env) else Inl IndexError)"

text \<open>
  The snapshot of one profile, \<^verbatim>\<open>profile_data\<close>: a dict with these keys once it is stored.
  The key \<^verbatim>\<open>id\<close> is the field \<open>profile_id\<close>.
\<close>

record 'f profile_data =
  profile_id :: "'f json"
  uid :: "'f json"
  name :: "'f json"
  is_online :: "'f json"
  unauthorized_remove :: "'f json"
  device_tampered :: "'f json"
  current_device :: "'f json"
  latitude :: "'f json"
  longitude :: "'f json"
  accuracy :: "'f json"
  lastseen :: "'f json"
  quota :: "'f json"
  time :: "'f json"

text \<open>
  Lines 175-181: the loop over \<^verbatim>\<open>device_ids\<close>, on the pair of the two entries it assigns,
  \<^verbatim>\<open>unauthorized_remove\<close> and \<^verbatim>\<open>device_tampered\<close>.
\<close>

fun check_devices ::
  "'f float_ops \<Rightarrow> ('f key \<rightharpoonup> 'f json) \<Rightarrow> 'f json list \<Rightarrow> 'f json \<times> 'f json \<Rightarrow>
   exn + 'f json \<times> 'f json" where
  "check_devices ops devices [] flags = Inr flags"
| "check_devices ops devices (device_id # rest) flags =
     (case py_key ops device_id of
        Inl e \<Rightarrow> Inl e
      | Inr k \<Rightarrow>
          (case devices k of
             None \<Rightarrow> check_devices ops devices rest flags
           | Some device \<Rightarrow>
               (case py_get device ''alerts'' (JObj []) of
                  Inl e \<Rightarrow> Inl e
                | Inr alerts \<Rightarrow>
                    (case py_get alerts ''unauthorized_remove'' (JBool False) of
                       Inl e \<Rightarrow> Inl e
                     | Inr a \<Rightarrow>
                         if py_truthy ops a then
                           (case py_get device ''name'' (JStr ''Unknown'') of
                              Inl e \<Rightarrow> Inl e
                            | Inr n \<Rightarrow> check_devices ops devices rest (JBool True, n))
                         else check_devices ops devices rest flags))))"

text \<open>Lines 188-191.\<close>

definition current_device_of ::
  "'f float_ops \<Rightarrow> ('f key \<rightharpoonup> 'f json) \<Rightarrow> 'f json \<Rightarrow> 'f json \<Rightarrow> exn + 'f json" where
  "current_device_of ops devices online device_id =
     (if py_truthy ops online \<and> py_truthy ops device_id then
        and_then (py_key ops device_id) (\<lambda>k.
          case devices k of
            None \<Rightarrow> Inr JNull
          | Some device \<Rightarrow> py_get device ''name'' JNull)
      else Inr JNull)"

text \<open>Lines 163-199 and 216: the snapshot before the two fetches.\<close>

definition profile_base ::
  "'f float_ops \<Rightarrow> ('f key \<rightharpoonup> 'f json) \<Rightarrow> 'f json \<Rightarrow> exn + 'f profile_data" where
  "profile_base ops devices profile =
     and_then (py_getitem profile ''name'') (\<lambda>logged.
     and_then (py_getitem profile ''id'') (\<lambda>i.
     and_then (py_get profile ''uid'' i) (\<lambda>u.
     and_then (py_getitem profile ''name'') (\<lambda>n.
     and_then (py_get profile ''status'' (JObj [])) (\<lambda>status0.
     and_then (py_get status0 ''is_online'' (JBool False)) (\<lambda>online.
     and_then (py_get profile ''device_ids'' (JList [])) (\<lambda>device_ids.
     and_then (py_iter device_ids) (\<lambda>ids.
     and_then (check_devices ops devices ids (JBool False, JNull)) (\<lambda>flags.
     and_then (py_get profile ''status'' (JObj [])) (\<lambda>status.
     and_then (py_get status ''location'' (JObj [])) (\<lambda>location.
     and_then (py_get location ''device'' JNull) (\<lambda>device_id.
     and_then (current_device_of ops devices online device_id) (\<lambda>cur.
     and_then (py_get location ''latitude'' JNull) (\<lambda>lat.
     and_then (py_get location ''longitude'' JNull) (\<lambda>lon.
     and_then (py_get location ''accuracy'' (JInt 0)) (\<lambda>acc.
     and_then (py_get status ''lastseen'' JNull) (\<lambda>seen.
       Inr \<lparr>profile_id = i, uid = u, name = n, is_online = online,
            unauthorized_remove = fst flags, device_tampered = snd flags,
            current_device = cur, latitude = lat, longitude = lon, accuracy = acc,
            lastseen = seen, quota = JInt 0, time = JInt 0\<rparr>)))))))))))))))))"

text \<open>Lines 201-211: the body of the \<^verbatim>\<open>try\<close>; \<open>None\<close> leaves the quota as it is.\<close>

definition get_quota_try :: "'f env \<Rightarrow> string \<Rightarrow> 'f request \<Rightarrow> exn + 'f json option" where
  "get_quota_try env dow rq =
     (case server env rq of
        Failed e \<Rightarrow> Inl e
      | Responded status body text \<Rightarrow>
          if status = 200 then
            and_then body (\<lambda>rules_data.
            and_then (py_get rules_data ''time_restrictions'' (JObj [])) (\<lambda>time_restrictions.
            and_then (py_get time_restrictions ''quotas'' (JObj [])) (\<lambda>quotas.
            and_then (py_get quotas dow (JInt 0)) (\<lambda>q. Inr (Some q)))))
          else Inr None)"

text \<open>Lines 199-213.\<close>

definition get_quota ::
  "'f env \<Rightarrow> string \<Rightarrow> 'f client \<Rightarrow> 'f profile_data \<Rightarrow> 'f profile_data \<times> 'f client" where
  "get_quota env dow c pd =
     (let rq = GetRules (account_id c) (profile_id pd);
          c1 = c\<lparr>requests := requests c @ [rq]\<rparr>
      in case get_quota_try env dow rq of
           Inl e \<Rightarrow> (pd\<lparr>quota := JInt 0\<rparr>, c1)
         | Inr None \<Rightarrow> (pd\<lparr>quota := JInt 0\<rparr>, c1)
         | Inr (Some q) \<Rightarrow> (pd\<lparr>quota := q\<rparr>, c1))"

text \<open>
  \<^verbatim>\<open>acc + v\<close> as \<^verbatim>\<open>sum\<close> performs it: the accumulator is an int or a float, the value is
  anything.
\<close>

fun sum_add :: "'f float_ops \<Rightarrow> 'f json \<Rightarrow> 'f json \<Rightarrow> exn + 'f json" where
  "sum_add ops (JInt a) (JInt b) = Inr (JInt (a + b))"
| "sum_add ops (JInt a) (JBool b) = Inr (JInt (a + (if b then 1 else 0)))"
| "sum_add ops (JInt a) (JFloat g) =
     (case float_of_int ops a of
        None \<Rightarrow> Inl OverflowError
      | Some f \<Rightarrow> Inr (JFloat (float_add ops f g)))"
| "sum_add ops (JFloat f) (JInt b) =
     (case float_of_int ops b of
        None \<Rightarrow> Inl OverflowError
      | Some g \<Rightarrow> Inr (JFloat (float_add ops f g)))"
| "sum_add ops (JFloat f) (JBool b) =
     (case float_of_int ops (if b then 1 else 0) of
        None \<Rightarrow> Inl OverflowError
      | Some g \<Rightarrow> Inr (JFloat (float_add ops f g)))"
| "sum_add ops (JFloat f) (JFloat g) = Inr (JFloat (float_add ops f g))"
| "sum_add ops _ _ = Inl TypeError"

text \<open>Lines 227-230: \<^verbatim>\<open>sum\<close> over the entries, from the accumulator \<open>acc\<close>.\<close>

fun sum_seconds :: "'f float_ops \<Rightarrow> 'f json list \<Rightarrow> 'f json \<Rightarrow> exn + 'f json" where
  "sum_seconds ops [] acc = Inr acc"
| "sum_seconds ops (entry # rest) acc =
     (case py_get entry ''screen_time_seconds'' (JInt 0) of
        Inl e \<Rightarrow> Inl e
      | Inr v \<Rightarrow>
          (case sum_add ops acc v of
             Inl e \<Rightarrow> Inl e
           | Inr acc' \<Rightarrow> sum_seconds ops rest acc'))"

text \<open>Line 231: \<^verbatim>\<open>round(total_time / 60, 1)\<close>.\<close>

fun minutes :: "'f float_ops \<Rightarrow> 'f json \<Rightarrow> exn + 'f json" where
  "minutes ops (JInt a) =
     (case int_truediv ops a 60 of
        None \<Rightarrow> Inl OverflowError
      | Some q \<Rightarrow> Inr (JFloat (float_round1 ops q)))"
| "minutes ops (JFloat f) = Inr (JFloat (float_round1 ops (float_truediv ops f 60)))"
| "minutes ops _ = Inl TypeError"

text \<open>Lines 219-233: the body of the \<^verbatim>\<open>try\<close>; \<open>None\<close> leaves the time as it is.\<close>

definition get_time_try ::
  "'f float_ops \<Rightarrow> 'f env \<Rightarrow> 'f request \<Rightarrow> exn + 'f json option" where
  "get_time_try ops env rq =
     (case server env rq of
        Failed e \<Rightarrow> Inl e
      | Responded status body text \<Rightarrow>
          if status = 200 then
            and_then body (\<lambda>hourly_data.
            and_then (py_iter hourly_data) (\<lambda>entries.
            and_then (sum_seconds ops entries (JInt 0)) (\<lambda>total_time.
            and_then (minutes ops total_time) (\<lambda>t. Inr (Some t)))))
          else Inr None)"

text \<open>Lines 216-235.\<close>

definition get_time ::
  "'f float_ops \<Rightarrow> 'f env \<Rightarrow> 'f client \<Rightarrow> 'f profile_data \<Rightarrow> 'f profile_data \<times> 'f client" where
  "get_time ops env c pd =
     (let rq = GetHourlySummary (account_uid c) (uid pd) (today env);
          c1 = c\<lparr>requests := requests c @ [rq]\<rparr>
      in case get_time_try ops env rq of
           Inl e \<Rightarrow> (pd\<lparr>time := JInt 0\<rparr>, c1)
         | Inr None \<Rightarrow> (pd\<lparr>time := JInt 0\<rparr>, c1)
         | Inr (Some t) \<Rightarrow> (pd\<lparr>time := t\<rparr>, c1))"

text \<open>Lines 163-237: one turn of the loop, up to the key under which the snapshot is stored.\<close>

definition process_profile ::
  "'f float_ops \<Rightarrow> 'f env \<Rightarrow> ('f key \<rightharpoonup> 'f json) \<Rightarrow> string \<Rightarrow> 'f client \<Rightarrow> 'f json \<Rightarrow>
   (exn + 'f key \<times> 'f profile_data) \<times> 'f client" where
  "process_profile ops env devices dow c profile =
     (case profile_base ops devices profile of
        Inl e \<Rightarrow> (Inl e, c)
      | Inr pd0 \<Rightarrow>
          (case get_quota env dow c pd0 of
             (pd1, c1) \<Rightarrow>
               (case get_time ops env c1 pd1 of
                  (pd2, c2) \<Rightarrow>
                    (case py_key ops (profile_id pd2) of
                       Inl e \<Rightarrow> (Inl e, c2)
                     | Inr k \<Rightarrow> (Inr (k, pd2), c2)))))"

text \<open>Lines 162-237: the loop, on the dict \<^verbatim>\<open>data\<close> it fills.\<close>

fun profiles_loop ::
  "'f float_ops \<Rightarrow> 'f env \<Rightarrow> ('f key \<rightharpoonup> 'f json) \<Rightarrow> string \<Rightarrow> 'f json list \<Rightarrow> 'f client \<Rightarrow>
   ('f key \<rightharpoonup> 'f profile_data) \<Rightarrow> exn option \<times> 'f client \<times> ('f key \<rightharpoonup> 'f profile_data)" where
  "profiles_loop ops env devices dow [] c data = (None, c, data)"
| "profiles_loop ops env devices dow (profile # rest) c data =
     (case process_profile ops env devices dow c profile of
        (Inl e, c') \<Rightarrow> (Some e, c', data)
      | (Inr (k, pd), c') \<Rightarrow> profiles_loop ops env devices dow rest c' (data(k \<mapsto> pd)))"

text \<open>
  Lines 112-160: everything before the loop. \<open>Inl\<close> is a raise (\<open>Some e\<close>) or a
  \<^verbatim>\<open>return data\<close> (\<open>None\<close>) before the loop; \<open>Inr\<close> holds \<^verbatim>\<open>devices\<close>, \<^verbatim>\<open>dow\<close> and the
  entries the loop is about to visit.
\<close>

definition get_data_prepare ::
  "'f float_ops \<Rightarrow> 'f env \<Rightarrow> 'f client \<Rightarrow>
   (exn option \<times> 'f client) + (('f key \<rightharpoonup> 'f json) \<times> string \<times> 'f json list \<times> 'f client)" where
  "get_data_prepare ops env c =
     (case login ops env (c\<lparr>session := True\<rparr>) of
        (r, c1) \<Rightarrow>
          if r \<noteq> LOGIN_RESULT_OK then Inl (None, c1)
          else
            (case get_account env c1 of
               (Raised e, c2) \<Rightarrow> Inl (Some e, c2)
             | (Returned, c2) \<Rightarrow> Inl (None, c2)
             | (Continue _, c2) \<Rightarrow>
                 (case get_devices ops env c2 of
                    (devices, c3) \<Rightarrow>
                      (case get_profiles env c3 of
                         (Raised e, c4) \<Rightarrow> Inl (Some e, c4)
                       | (Returned, c4) \<Rightarrow> Inl (None, c4)
                       | (Continue profiles_data, c4) \<Rightarrow>
                           (case day_of_week env of
                              Inl e \<Rightarrow> Inl (Some e, c4)
                            | Inr dow \<Rightarrow>
                                (case py_iter profiles_data of
                                   Inl e \<Rightarrow> Inl (Some e, c4)
                                 | Inr ps \<Rightarrow> Inr (devices, dow, ps, c4)))))))"

text \<open>
  Lines 108-240: the body of the outer \<^verbatim>\<open>try\<close>, with the exception it raises if any, the
  client and the dict \<^verbatim>\<open>data\<close> as it leaves them.
\<close>

definition get_data_try ::
  "'f float_ops \<Rightarrow> 'f env \<Rightarrow> 'f client \<Rightarrow>
   exn option \<times> 'f client \<times> ('f key \<rightharpoonup> 'f profile_data)" where
  "get_data_try ops env c =
     (case get_data_prepare ops env c of
        Inl (r, c') \<Rightarrow> (r, c', Map.empty)
      | Inr (devices, dow, ps, c4) \<Rightarrow>
          (case profiles_loop ops env devices dow ps c4 Map.empty of
             (Some e, c5, data) \<Rightarrow> (Some e, c5, data)
           | (None, c5, data) \<Rightarrow> (None, c5\<lparr>session := False\<rparr>, data)))"

text \<open>The three handlers of lines 242-247 and the \<^verbatim>\<open>return data\<close> of line 251.\<close>

fun get_data_except ::
  "exn \<Rightarrow> ('f key \<rightharpoonup> 'f profile_data) \<Rightarrow> exn + ('f key \<rightharpoonup> 'f profile_data)" where
  "get_data_except TimeoutError data = Inr data"
| "get_data_except ClientError data = Inr data"
| "get_data_except _ data = Inr data"

text \<open>
  \<^verbatim>\<open>get_data\<close>: what it returns or raises, and the client after the \<^verbatim>\<open>finally\<close> of lines
  248-249.
\<close>

definition get_data ::
  "'f float_ops \<Rightarrow> 'f env \<Rightarrow> 'f client \<Rightarrow> (exn + ('f key \<rightharpoonup> 'f profile_data)) \<times> 'f client" where
  "get_data ops env c =
     (case get_data_try ops env c of
        (None, c', data) \<Rightarrow> (Inr data, c'\<lparr>session := False\<rparr>)
      | (Some e, c', data) \<Rightarrow> (get_data_except e data, c'\<lparr>session := False\<rparr>))"

section \<open>Vocabulary of the properties\<close>

text \<open>
  What the properties say about a response, in the words of the specification: its status,
  the access-token field of its body, the lifetime it declares (3600 seconds when it
  declares none) and the expiry that lifetime gives from a time \<open>now\<close>, if that is a date.
\<close>

fun response_status :: "'f http_result \<Rightarrow> int option" where
  "response_status (Failed e) = None"
| "response_status (Responded status body text) = Some status"

fun token_field :: "'f http_result \<Rightarrow> 'f json option" where
  "token_field (Responded status (Inr (JObj kvs)) text) = map_of kvs ''access_token''"
| "token_field _ = None"

fun lifetime_field :: "'f http_result \<Rightarrow> 'f json" where
  "lifetime_field (Responded status (Inr (JObj kvs)) text) =
     (case map_of kvs ''expires_in'' of None \<Rightarrow> JInt 3600 | Some v \<Rightarrow> v)"
| "lifetime_field _ = JInt 3600"

definition expiry_after :: "'f float_ops \<Rightarrow> int \<Rightarrow> 'f json \<Rightarrow> int option" where
  "expiry_after ops now v =
     (case timedelta_seconds ops v of
        Inl e \<Rightarrow> None
      | Inr d \<Rightarrow> (case datetime_add now d of Inl e \<Rightarrow> None | Inr t \<Rightarrow> Some t))"

text \<open>
  Today's three-letter day code, from \<^verbatim>\<open>weekday()\<close>: Monday is 0, Sunday is 6.
\<close>

definition day_code :: "nat \<Rightarrow> string" where
  "day_code wd =
     (if wd = 0 then ''mon'' else if wd = 1 then ''tue'' else if wd = 2 then ''wed''
      else if wd = 3 then ''thu'' else if wd = 4 then ''fri'' else if wd = 5 then ''sat''
      else ''sun'')"

text \<open>
  The quotas of the time restrictions of a rules response: present when the response has
  status 200 and its body is an object whose \<^verbatim>\<open>time_restrictions\<close> is an object whose
  \<^verbatim>\<open>quotas\<close> is an object.
\<close>

fun rules_quotas :: "'f http_result \<Rightarrow> (string \<times> 'f json) list option" where
  "rules_quotas (Responded status (Inr (JObj rules)) text) =
     (if status = 200 then
        (case map_of rules ''time_restrictions'' of
           Some (JObj time_restrictions) \<Rightarrow>
             (case map_of time_restrictions ''quotas'' of
                Some (JObj quotas) \<Rightarrow> Some quotas
              | _ \<Rightarrow> None)
         | _ \<Rightarrow> None)
      else None)"
| "rules_quotas _ = None"

text \<open>
  The quota a rules response gives for a weekday: the value under the day code, 0 when the
  day or the quotas are absent.
\<close>

definition quota_of_rules :: "nat \<Rightarrow> 'f http_result \<Rightarrow> 'f json" where
  "quota_of_rules wd r =
     (case rules_quotas r of
        None \<Rightarrow> JInt 0
      | Some quotas \<Rightarrow> (case map_of quotas (day_code wd) of None \<Rightarrow> JInt 0 | Some v \<Rightarrow> v))"


text \<open>
  The device identifiers associated with a profile entry.
\<close>

definition device_ids_of :: "'f json \<Rightarrow> 'f json list" where
  "device_ids_of profile =
     (case py_get profile ''device_ids'' (JList []) of
        Inl e \<Rightarrow> []
      | Inr v \<Rightarrow> (case py_iter v of Inl e \<Rightarrow> [] | Inr ids \<Rightarrow> ids))"

text \<open>
  The device an identifier refers to in the device mapping, when that device carries an
  \<^verbatim>\<open>unauthorized_remove\<close> alert.
\<close>

definition alerted_device ::
  "'f float_ops \<Rightarrow> ('f key \<rightharpoonup> 'f json) \<Rightarrow> 'f json \<Rightarrow> 'f json option" where
  "alerted_device ops devices device_id =
     (case py_key ops device_id of
        Inl e \<Rightarrow> None
      | Inr k \<Rightarrow>
          (case devices k of
             None \<Rightarrow> None
           | Some device \<Rightarrow>
               (case py_get device ''alerts'' (JObj []) of
                  Inl e \<Rightarrow> None
                | Inr alerts \<Rightarrow>
                    (case py_get alerts ''unauthorized_remove'' (JBool False) of
                       Inl e \<Rightarrow> None
                     | Inr a \<Rightarrow> if py_truthy ops a then Some device else None))))"

text \<open>
  The name recorded for a device: \<^verbatim>\<open>Unknown\<close> when it has none.
\<close>

definition device_name :: "'f json \<Rightarrow> 'f json" where
  "device_name device =
     (case py_get device ''name'' (JStr ''Unknown'') of Inl e \<Rightarrow> JStr ''Unknown'' | Inr n \<Rightarrow> n)"

text \<open>
  The devices of a profile that carry the alert, in the order of its device identifiers.
\<close>

definition tampered ::
  "'f float_ops \<Rightarrow> ('f key \<rightharpoonup> 'f json) \<Rightarrow> 'f json list \<Rightarrow> 'f json list" where
  "tampered ops devices ids = List.map_filter (alerted_device ops devices) ids"














section \<open>Example runs\<close>

text \<open>
  The examples take rationals for the floats, with exact arithmetic: on the values that
  occur in them this is what IEEE doubles give. A conversion or a division of ints
  overflows when its result is not below \<open>2 ^ 1024 - 2 ^ 970\<close>, the least magnitude that
  rounds to no finite double; \<open>round_half_even\<close> rounds to the nearest integer, a tie to the
  even one, as \<^verbatim>\<open>round\<close> does.
\<close>

definition float_limit :: rat where
  "float_limit = 2 ^ 1024 - 2 ^ 970"

definition round_half_even :: "rat \<Rightarrow> int" where
  "round_half_even y =
     (let n = \<lfloor>y\<rfloor>; d = y - of_int n
      in if d < 1 / 2 then n else if 1 / 2 < d then n + 1 else if even n then n else n + 1)"

definition exact_ops :: "rat float_ops" where
  "exact_ops = \<lparr>
     float_integral = (\<lambda>f. if f = of_int \<lfloor>f\<rfloor> then Some \<lfloor>f\<rfloor> else None),
     float_of_int = (\<lambda>n. if \<bar>of_int n\<bar> < float_limit then Some (of_int n) else None),
     float_add = (\<lambda>f g. f + g),
     int_truediv = (\<lambda>a b. if b \<noteq> 0 \<and> \<bar>of_int a / of_int b\<bar> < float_limit
                            then Some (of_int a / of_int b) else None),
     float_truediv = (\<lambda>f b. f / of_int b),
     float_round1 = (\<lambda>f. of_int (round_half_even (f * 10)) / 10),
     float_micros = (\<lambda>f. Inr (round_half_even (f * 1000000)))\<rparr>"

definition ok :: "'f json \<Rightarrow> 'f http_result" where
  "ok body = Responded 200 (Inr body) (Inr [])"

definition down :: "'f http_result" where
  "down = Failed TimeoutError"

definition not_found :: "'f http_result" where
  "not_found = Responded 404 (Inl ValueError) (Inr ''Not Found'')"

text \<open>
  A service from its answers to the login, account, device and profile requests, and its
  answers to the rules and hourly-summary requests by profile.
\<close>

definition service ::
  "'f http_result \<Rightarrow> 'f http_result \<Rightarrow> 'f http_result \<Rightarrow> 'f http_result \<Rightarrow>
   ('f json \<Rightarrow> 'f http_result) \<Rightarrow> ('f json \<Rightarrow> 'f http_result) \<Rightarrow> 'f request \<Rightarrow> 'f http_result" where
  "service l a d p r h rq =
     (case rq of
        PostLogin _ _ \<Rightarrow> l
      | GetAccount \<Rightarrow> a
      | GetDevices _ \<Rightarrow> d
      | GetProfiles _ \<Rightarrow> p
      | GetRules _ i \<Rightarrow> r i
      | GetHourlySummary _ u _ \<Rightarrow> h u)"

definition monday :: "('f request \<Rightarrow> 'f http_result) \<Rightarrow> 'f env" where
  "monday s = \<lparr>server = s, now_check = 64000000000000000, now_issue = 64000000000000001,
     weekday = 0, today = ''2026-11-02''\<rparr>"

text \<open>A login answered with a token and the lifetime as a string; nothing else answers.\<close>

definition string_lifetime :: "rat env" where
  "string_lifetime =
     monday (service
       (ok (JObj [(''access_token'', JStr ''tok''), (''expires_in'', JStr ''3600'')]))
       down down down (\<lambda>i. down) (\<lambda>u. down))"

text \<open>A login answered with a token and no lifetime.\<close>

definition no_lifetime :: "rat env" where
  "no_lifetime =
     monday (service (ok (JObj [(''access_token'', JStr ''tok'')]))
       down down down (\<lambda>i. down) (\<lambda>u. down))"

text \<open>A client that holds a token which expires after the clock of \<open>monday\<close>.\<close>

definition logged_in :: "rat client" where
  "logged_in = (init ''parent@example.org'' ''secret'')
     \<lparr>access_token := JStr ''old'', expires_in := Some 64000000000000005\<rparr>"

text \<open>
  The identifier and UID a response to the account request gives (lines 129-131), and the
  pair of the two cached account fields after a call of \<open>get_data\<close> from the client \<open>c\<close>.
\<close>

fun account_fields :: "'f http_result \<Rightarrow> ('f json \<times> 'f json) option" where
  "account_fields (Responded status (Inr (JObj kvs)) text) =
     (if status = 200 then
        (case map_of kvs ''id'' of
           None \<Rightarrow> None
         | Some i \<Rightarrow> Some (i, case map_of kvs ''uid'' of None \<Rightarrow> i | Some u \<Rightarrow> u))
      else None)"
| "account_fields _ = None"

definition account_after :: "'f float_ops \<Rightarrow> 'f env \<Rightarrow> 'f client \<Rightarrow> 'f json \<times> 'f json" where
  "account_after ops env c =
     (if fst (login ops env c) = LOGIN_RESULT_OK then
        (case account_fields (server env GetAccount) of
           None \<Rightarrow> (account_id c, account_uid c)
         | Some iu \<Rightarrow> iu)
      else (account_id c, account_uid c))"

text \<open>The key under which the snapshot of a profile entry is stored, if it has one.\<close>

definition profile_key :: "'f float_ops \<Rightarrow> 'f json \<Rightarrow> 'f key option" where
  "profile_key ops profile =
     (case py_getitem profile ''id'' of
        Inl e \<Rightarrow> None
      | Inr i \<Rightarrow> (case py_key ops i of Inl e \<Rightarrow> None | Inr k \<Rightarrow> Some k))"

text \<open>
  A family of two children. Ann has a tablet that carries an alert and a phone, a quota
  of 90 minutes on Mondays and an hourly summary of 100 seconds; Bob has the phone, no
  rules, and the request for his summary times out. \<open>family_with\<close> takes the devices, the
  profile entries and the entries of Ann's summary.
\<close>

definition tablet :: "rat json" where
  "tablet = JObj [(''id'', JInt 7), (''name'', JStr ''Tablet''),
                  (''alerts'', JObj [(''unauthorized_remove'', JBool True)])]"

definition phone :: "rat json" where
  "phone = JObj [(''id'', JInt 8), (''name'', JStr ''Phone'')]"

definition ann_entry :: "rat json" where
  "ann_entry = JObj [(''id'', JInt 1), (''uid'', JStr ''p1''), (''name'', JStr ''Ann''),
                     (''device_ids'', JList [JInt 7, JInt 8])]"

definition bob_entry :: "rat json" where
  "bob_entry = JObj [(''id'', JInt 2), (''name'', JStr ''Bob''), (''device_ids'', JList [JInt 8])]"

definition ann_rules :: "rat json" where
  "ann_rules = JObj [(''time_restrictions'', JObj [(''quotas'', JObj [(''mon'', JInt 90)])])]"

definition ann_hours :: "rat json list" where
  "ann_hours = [JObj [(''screen_time_seconds'', JInt 70)], JObj [],
                JObj [(''screen_time_seconds'', JInt 30)]]"

definition family_with :: "rat json list \<Rightarrow> rat json list \<Rightarrow> rat json list \<Rightarrow> rat env" where
  "family_with devices profiles hours = monday (service
     (ok (JObj [(''access_token'', JStr ''tok''), (''expires_in'', JInt 3600)]))
     (ok (JObj [(''id'', JInt 42), (''uid'', JStr ''acc-42'')]))
     (ok (JList devices))
     (ok (JList profiles))
     (\<lambda>i. if i = JInt 1 then ok ann_rules else not_found)
     (\<lambda>u. if u = JStr ''p1'' then ok (JList hours) else down))"

definition family :: "rat env" where
  "family = family_with [tablet, phone] [ann_entry, bob_entry] ann_hours"

text \<open>What \<^verbatim>\<open>get_data\<close> is expected to return for the family.\<close>

definition family_devices :: "rat key \<rightharpoonup> rat json" where
  "family_devices = [KInt 7 \<mapsto> tablet, KInt 8 \<mapsto> phone]"

definition ann :: "rat profile_data" where
  "ann = \<lparr>profile_id = JInt 1, uid = JStr ''p1'', name = JStr ''Ann'', is_online = JBool False,
     unauthorized_remove = JBool True, device_tampered = JStr ''Tablet'',
     current_device = JNull, latitude = JNull, longitude = JNull, accuracy = JInt 0,
     lastseen = JNull, quota = JInt 90, time = JFloat (17 / 10)\<rparr>"

definition bob :: "rat profile_data" where
  "bob = \<lparr>profile_id = JInt 2, uid = JInt 2, name = JStr ''Bob'', is_online = JBool False,
     unauthorized_remove = JBool False, device_tampered = JNull,
     current_device = JNull, latitude = JNull, longitude = JNull, accuracy = JInt 0,
     lastseen = JNull, quota = JInt 0, time = JInt 0\<rparr>"

definition family_data :: "rat key \<rightharpoonup> rat profile_data" where
  "family_data = [KInt 1 \<mapsto> ann, KInt 2 \<mapsto> bob]"

text \<open>The same family when the tablet comes with \<^verbatim>\<open>"alerts": null\<close>.\<close>

definition null_alerts_tablet :: "rat json" where
  "null_alerts_tablet = JObj [(''id'', JInt 7), (''name'', JStr ''Tablet''), (''alerts'', JNull)]"

definition null_alerts :: "rat env" where
  "null_alerts = family_with [null_alerts_tablet, phone] [bob_entry, ann_entry] ann_hours"

text \<open>The same family with a second entry that comes with \<^verbatim>\<open>"status": null\<close>.\<close>

definition cy_entry :: "rat json" where
  "cy_entry = JObj [(''id'', JInt 3), (''name'', JStr ''Cy''), (''status'', JNull)]"

definition null_status :: "rat env" where
  "null_status = family_with [tablet, phone] [ann_entry, cy_entry, bob_entry] ann_hours"

text \<open>The same family when the last entry of Ann's summary counts 30.5 seconds.\<close>

definition float_hours :: "rat json list" where
  "float_hours = [JObj [(''screen_time_seconds'', JInt 70)], JObj [],
                  JObj [(''screen_time_seconds'', JFloat (61 / 2))]]"

definition float_family :: "rat env" where
  "float_family = family_with [tablet, phone] [ann_entry, bob_entry] float_hours"

text \<open>The same family when Ann's summary is one entry of \<open>10 ^ 400\<close> seconds.\<close>

definition huge_hours :: "rat json list" where
  "huge_hours = [JObj [(''screen_time_seconds'', JInt (10 ^ 400))]]"

definition huge_family :: "rat env" where
  "huge_family = family_with [tablet, phone] [ann_entry, bob_entry] huge_hours"

definition server_error :: "'f http_result" where
  "server_error = Responded 500 (Inl ValueError) (Inr ''Internal Server Error'')"

text \<open>The login succeeds and the account request is answered with status 500.\<close>

definition account_error :: "rat env" where
  "account_error = monday (service
     (ok (JObj [(''access_token'', JStr ''tok''), (''expires_in'', JInt 3600)]))
     server_error down down (\<lambda>i. down) (\<lambda>u. down))"

section \<open>Properties of login\<close>

lemma floor_quotient: "\<lfloor>numeral a / numeral b :: rat\<rfloor> = numeral a div numeral b"
  using floor_divide_of_int_eq [of "numeral a" "numeral b", where ?'a = rat] by simp

lemma login_except_error: "login_except e = LOGIN_RESULT_ERROR"
  by (cases e) simp_all

lemma login_try_fst:
  "fst (login_try ops env c) =
     (case server env (PostLogin (username c) (password c)) of
        Failed e \<Rightarrow> Inl e
      | Responded status body text \<Rightarrow>
          if status = 401 then Inr LOGIN_RESULT_UNAUTHORIZED
          else if status \<noteq> 200 then
            (case text of Inl e \<Rightarrow> Inl e | Inr _ \<Rightarrow> Inr LOGIN_RESULT_ERROR)
          else
            (case body of
               Inl e \<Rightarrow> Inl e
             | Inr d \<Rightarrow>
                 fst (login_ok_response ops env
                   (c\<lparr>requests := requests c @ [PostLogin (username c) (password c)]\<rparr>) d)))"
  by (simp add: login_try_def Let_def split: http_result.splits sum.splits)

lemma login_ok_response_result:
  "(case fst (login_ok_response ops env c d) of Inl e \<Rightarrow> LOGIN_RESULT_ERROR | Inr r \<Rightarrow> r) =
     (case d of
        JObj kvs \<Rightarrow>
          (case map_of kvs ''access_token'' of
             None \<Rightarrow> LOGIN_RESULT_ERROR
           | Some tok \<Rightarrow>
               (case expiry_after ops (now_issue env)
                       (case map_of kvs ''expires_in'' of None \<Rightarrow> JInt 3600 | Some v \<Rightarrow> v) of
                  None \<Rightarrow> LOGIN_RESULT_ERROR
                | Some t \<Rightarrow> LOGIN_RESULT_OK))
      | _ \<Rightarrow> LOGIN_RESULT_ERROR)"
  by (cases d)
     (auto simp: login_ok_response_def new_expiry_def expiry_after_def
           split: option.splits sum.splits bool.splits)

lemma login_result:
  assumes "\<not> token_cached env c"
  shows "fst (login ops env c) =
     (case server env (PostLogin (username c) (password c)) of
        Failed e \<Rightarrow> LOGIN_RESULT_ERROR
      | Responded status body text \<Rightarrow>
          if status = 401 then LOGIN_RESULT_UNAUTHORIZED
          else if status \<noteq> 200 then LOGIN_RESULT_ERROR
          else
            (case body of
               Inl e \<Rightarrow> LOGIN_RESULT_ERROR
             | Inr d \<Rightarrow>
                 (case fst (login_ok_response ops env
                        (c\<lparr>requests := requests c @ [PostLogin (username c) (password c)]\<rparr>) d) of
                    Inl e \<Rightarrow> LOGIN_RESULT_ERROR
                  | Inr r \<Rightarrow> r)))"
proof -
  have "fst (login ops env c) =
          (case fst (login_try ops env c) of Inl e \<Rightarrow> LOGIN_RESULT_ERROR | Inr r \<Rightarrow> r)"
    using assms by (simp add: login_def login_except_error split: prod.splits sum.splits)
  then show ?thesis
    by (simp add: login_try_fst split: http_result.splits sum.splits)
qed

lemmas login_run_defs = float_limit_def round_half_even_def string_lifetime_def no_lifetime_def logged_in_def monday_def
  service_def ok_def down_def exact_ops_def init_def login_def token_cached_def login_try_def
  login_ok_response_def new_expiry_def timedelta_range_def datetime_add_def datetime_max_def
  expiry_after_def Let_def

text \<open>
  Claim C3, as the code has it. When login performs the authentication request (no cached
  token that is still valid), it returns UNAUTHORIZED if and only if the response status
  is 401. It returns OK if and only if the status is 200, the body is an object with the
  access-token field, and the declared lifetime (3600 when absent) is a number that gives
  a representable expiry date. In every other case it returns ERROR: a timeout or
  transport failure, any other status, a body that cannot be decoded or lacks the field,
  and also a body with the field whose lifetime is not such a number.
\<close>

theorem login_classification:
  assumes "\<not> token_cached env c"
    and "server env (PostLogin (username c) (password c)) = r"
  shows "(fst (login ops env c) = LOGIN_RESULT_UNAUTHORIZED \<longleftrightarrow> response_status r = Some 401)
       \<and> (fst (login ops env c) = LOGIN_RESULT_OK \<longleftrightarrow>
            response_status r = Some 200 \<and> token_field r \<noteq> None
            \<and> expiry_after ops (now_issue env) (lifetime_field r) \<noteq> None)
       \<and> (fst (login ops env c) = LOGIN_RESULT_ERROR \<longleftrightarrow>
            response_status r \<noteq> Some 401
            \<and> (response_status r \<noteq> Some 200 \<or> token_field r = None
                \<or> expiry_after ops (now_issue env) (lifetime_field r) = None))"
proof (cases r)
  case (Failed e)
  then show ?thesis using assms by (simp add: login_result)
next
  case (Responded status body tx)
  show ?thesis
  proof (cases body)
    case (Inl e)
    then show ?thesis using assms Responded by (simp add: login_result)
  next
    case (Inr d)
    then show ?thesis using assms Responded
      by (cases d) (auto simp: login_result login_ok_response_result split: option.splits)
  qed
qed

theorem login_classification_witness:
  "\<not> token_cached no_lifetime (init ''u'' ''p'')
 \<and> response_status (server no_lifetime (PostLogin ''u'' ''p'')) = Some 200
 \<and> token_field (server no_lifetime (PostLogin ''u'' ''p'')) = Some (JStr ''tok'')
 \<and> expiry_after exact_ops (now_issue no_lifetime)
      (lifetime_field (server no_lifetime (PostLogin ''u'' ''p''))) = Some 64000003600000001
 \<and> fst (login exact_ops no_lifetime (init ''u'' ''p'')) = LOGIN_RESULT_OK"
proof -
  have h: "\<not> token_cached no_lifetime (init ''u'' ''p'')"
    by (simp add: token_cached_def init_def)
  have u: "username (init ''u'' ''p'' :: rat client) = ''u''"
    and p: "password (init ''u'' ''p'' :: rat client) = ''p''"
    by (simp_all add: init_def)
  have r: "server no_lifetime (PostLogin (username (init ''u'' ''p'' :: rat client))
             (password (init ''u'' ''p'' :: rat client)))
           = ok (JObj [(''access_token'', JStr ''tok'')])"
    by (simp add: no_lifetime_def monday_def service_def init_def)
  have e: "expiry_after exact_ops (now_issue no_lifetime) (JInt 3600) = Some 64000003600000001"
    by (simp add: login_run_defs)
  show ?thesis
    using login_classification [OF h r, of exact_ops] h e
    by (simp add: ok_def no_lifetime_def monday_def service_def)
qed

text \<open>
  Claim C3 as stated fails: the response has status 200 and a body with the access-token
  field, which is the case the claim calls "otherwise", and login returns ERROR, because
  the lifetime is the string "3600".
\<close>

theorem login_ok_otherwise_counterexample:
  "\<not> token_cached string_lifetime (init ''u'' ''p'')
 \<and> response_status (server string_lifetime (PostLogin ''u'' ''p'')) = Some 200
 \<and> token_field (server string_lifetime (PostLogin ''u'' ''p'')) = Some (JStr ''tok'')
 \<and> fst (login exact_ops string_lifetime (init ''u'' ''p'')) = LOGIN_RESULT_ERROR"
  by (simp add: login_run_defs)

text \<open>
  Claim C4. When a cached access token exists and its expiry is strictly later than the
  current time, login returns OK, performs no network request and leaves the token and
  the expiry as they are.
\<close>

theorem login_cached_token:
  assumes "access_token c \<noteq> JNull" and "expires_in c = Some t" and "now_check env < t"
  shows "fst (login ops env c) = LOGIN_RESULT_OK
       \<and> requests (snd (login ops env c)) = requests c
       \<and> access_token (snd (login ops env c)) = access_token c
       \<and> expires_in (snd (login ops env c)) = expires_in c"
  using assms by (simp add: login_def token_cached_def)

theorem login_cached_token_witness:
  "access_token logged_in \<noteq> JNull
 \<and> expires_in logged_in = Some 64000000000000005
 \<and> now_check string_lifetime < 64000000000000005
 \<and> fst (login exact_ops string_lifetime logged_in) = LOGIN_RESULT_OK
 \<and> requests (snd (login exact_ops string_lifetime logged_in)) = []
 \<and> access_token (snd (login exact_ops string_lifetime logged_in)) = JStr ''old''
 \<and> expires_in (snd (login exact_ops string_lifetime logged_in)) = Some 64000000000000005"
proof -
  have a: "access_token logged_in \<noteq> JNull"
    and b: "expires_in logged_in = Some 64000000000000005"
    and c: "now_check string_lifetime < 64000000000000005"
    and d: "requests logged_in = []"
    by (simp_all add: logged_in_def init_def string_lifetime_def monday_def)
  show ?thesis
    using login_cached_token [OF a b c, of exact_ops] a b c d
    by (simp add: logged_in_def init_def)
qed

text \<open>
  Claim C5 at the failing input: the response has status 200, a token and the lifetime as
  a string. Line 85 stores the token, then line 86 raises on the lifetime and the handler
  of line 98 returns ERROR: the cached token has changed from unset to the new token
  although login did not return OK. The expiry is unchanged.
\<close>

theorem login_error_token_mutated:
  "fst (login exact_ops string_lifetime (init ''u'' ''p'')) = LOGIN_RESULT_ERROR
 \<and> access_token (init ''u'' ''p'' :: rat client) = JNull
 \<and> access_token (snd (login exact_ops string_lifetime (init ''u'' ''p''))) = JStr ''tok''
 \<and> expires_in (snd (login exact_ops string_lifetime (init ''u'' ''p''))) = None"
  by (simp add: login_run_defs)

section \<open>Properties of get_data\<close>

lemma login_frame:
  "account_id (snd (login ops env c)) = account_id c
 \<and> account_uid (snd (login ops env c)) = account_uid c
 \<and> session (snd (login ops env c)) = session c"
  by (simp add: login_def login_try_def login_ok_response_def Let_def
        split: prod.splits sum.splits http_result.splits bool.splits)

lemma login_session: "fst (login ops env (c\<lparr>session := b\<rparr>)) = fst (login ops env c)"
  by (simp add: login_def login_try_def login_ok_response_def Let_def token_cached_def
        split: prod.splits sum.splits http_result.splits bool.splits)

lemma get_account_fields:
  "account_id (snd (get_account env c)) =
     (case account_fields (server env GetAccount) of None \<Rightarrow> account_id c | Some iu \<Rightarrow> fst iu)
 \<and> account_uid (snd (get_account env c)) =
     (case account_fields (server env GetAccount) of None \<Rightarrow> account_uid c | Some iu \<Rightarrow> snd iu)
 \<and> session (snd (get_account env c)) = session c"
proof (cases "server env GetAccount")
  case (Failed e)
  then show ?thesis by (simp add: get_account_def)
next
  case (Responded status body tx)
  show ?thesis
  proof (cases body)
    case (Inl e)
    then show ?thesis using Responded by (simp add: get_account_def Let_def)
  next
    case (Inr d)
    then show ?thesis using Responded
      by (cases d) (simp_all add: get_account_def Let_def split: option.splits)
  qed
qed

lemma get_account_Continue:
  "fst (get_account env c) = Continue u \<Longrightarrow>
     account_fields (server env GetAccount) \<noteq> None
   \<and> (\<exists>body tx. server env GetAccount = Responded 200 body tx)"
proof (cases "server env GetAccount")
  case (Failed e)
  assume "fst (get_account env c) = Continue u"
  then show ?thesis using Failed by (simp add: get_account_def Let_def)
next
  case (Responded status body tx)
  assume a: "fst (get_account env c) = Continue u"
  show ?thesis
  proof (cases body)
    case (Inl e)
    then show ?thesis using Responded a by (simp add: get_account_def Let_def split: if_splits)
  next
    case (Inr d)
    then show ?thesis using Responded a
      by (cases d) (simp_all add: get_account_def Let_def split: option.splits if_splits)
  qed
qed

lemma get_account_not_200:
  "server env GetAccount = Responded status body tx \<Longrightarrow> status \<noteq> 200 \<Longrightarrow>
   fst (get_account env c) = Returned"
  by (simp add: get_account_def Let_def)

lemma get_devices_snd:
  "snd (get_devices ops env c) = c\<lparr>requests := requests c @ [GetDevices (account_id c)]\<rparr>"
  by (simp add: get_devices_def Let_def split: sum.splits option.splits)

lemma get_profiles_snd:
  "snd (get_profiles env c) = c\<lparr>requests := requests c @ [GetProfiles (account_id c)]\<rparr>"
  by (simp add: get_profiles_def Let_def split: sum.splits http_result.splits)

lemma get_profiles_Continue:
  "fst (get_profiles env c) = Continue pd \<Longrightarrow>
   \<exists>tx. server env (GetProfiles (account_id c)) = Responded 200 (Inr pd) tx"
  by (simp add: get_profiles_def Let_def split: sum.splits http_result.splits if_splits)

lemma get_profiles_not_200:
  "server env (GetProfiles (account_id c)) = Responded status body tx \<Longrightarrow> status \<noteq> 200 \<Longrightarrow>
   fst (get_profiles env c) = Returned"
  by (simp add: get_profiles_def Let_def)

lemma get_quota_snd:
  "snd (get_quota env dow c pd) =
     c\<lparr>requests := requests c @ [GetRules (account_id c) (profile_id pd)]\<rparr>"
  by (simp add: get_quota_def Let_def split: sum.splits option.splits)

lemma get_time_snd:
  "snd (get_time ops env c pd) =
     c\<lparr>requests := requests c @ [GetHourlySummary (account_uid c) (uid pd) (today env)]\<rparr>"
  by (simp add: get_time_def Let_def split: sum.splits option.splits)

lemma process_profile_frame:
  "account_id (snd (process_profile ops env devices dow c p)) = account_id c
 \<and> account_uid (snd (process_profile ops env devices dow c p)) = account_uid c
 \<and> session (snd (process_profile ops env devices dow c p)) = session c"
proof (cases "profile_base ops devices p")
  case (Inl e)
  then show ?thesis by (simp add: process_profile_def)
next
  case (Inr pd0)
  obtain pd1 c1 where q: "get_quota env dow c pd0 = (pd1, c1)" by (cases "get_quota env dow c pd0")
  obtain pd2 c2 where t: "get_time ops env c1 pd1 = (pd2, c2)" by (cases "get_time ops env c1 pd1")
  from q have c1: "c1 = c\<lparr>requests := requests c @ [GetRules (account_id c) (profile_id pd0)]\<rparr>"
    using get_quota_snd [of env dow c pd0] by simp
  from t have c2: "c2 = c1\<lparr>requests := requests c1 @ [GetHourlySummary (account_uid c1) (uid pd1) (today env)]\<rparr>"
    using get_time_snd [of ops env c1 pd1] by simp
  show ?thesis using Inr q t c1 c2
    by (simp add: process_profile_def split: sum.splits)
qed

lemma profiles_loop_frame:
  "profiles_loop ops env devices dow ps c data = (r, c', data') \<Longrightarrow>
   account_id c' = account_id c \<and> account_uid c' = account_uid c \<and> session c' = session c"
proof (induction ps arbitrary: c data)
  case Nil
  then show ?case by simp
next
  case (Cons p ps)
  obtain x c1 where pp: "process_profile ops env devices dow c p = (x, c1)"
    by (cases "process_profile ops env devices dow c p")
  have fr: "account_id c1 = account_id c \<and> account_uid c1 = account_uid c \<and> session c1 = session c"
    using process_profile_frame [of ops env devices dow c p] pp by simp
  show ?case
  proof (cases x)
    case (Inl e)
    then show ?thesis using Cons.prems pp fr by simp
  next
    case (Inr kp)
    obtain k pd where kp: "kp = (k, pd)" by (cases kp)
    from Cons.prems pp Inr kp
    have "profiles_loop ops env devices dow ps c1 (data(k \<mapsto> pd)) = (r, c', data')" by simp
    from Cons.IH [OF this] fr show ?thesis by simp
  qed
qed

lemma get_data_except_Inr: "get_data_except e data = Inr data"
  by (cases e) simp_all

lemma get_data_unfold:
  "get_data ops env c =
     (case get_data_prepare ops env c of
        Inl (x, c1) \<Rightarrow> (Inr Map.empty, c1\<lparr>session := False\<rparr>)
      | Inr (devices, dow, ps, c4) \<Rightarrow>
          (case profiles_loop ops env devices dow ps c4 Map.empty of
             (x, c5, data) \<Rightarrow> (Inr data, c5\<lparr>session := False\<rparr>)))"
  by (simp add: get_data_def get_data_try_def get_data_except_Inr
        split: sum.splits prod.splits option.splits)

lemma prepare_account:
  assumes "get_data_prepare ops env c = Inl (x, c')
         \<or> get_data_prepare ops env c = Inr (dv, w, ps, c')"
  shows "account_id c' = fst (account_after ops env c)
       \<and> account_uid c' = snd (account_after ops env c)"
proof -
  obtain r c1 where l: "login ops env (c\<lparr>session := True\<rparr>) = (r, c1)"
    by (cases "login ops env (c\<lparr>session := True\<rparr>)")
  have f1: "account_id c1 = account_id c \<and> account_uid c1 = account_uid c"
    using login_frame [of ops env "c\<lparr>session := True\<rparr>"] l by simp
  have r: "r = fst (login ops env c)"
    using login_session [where ops = ops and env = env and c = c and b = True] l by simp
  show ?thesis
  proof (cases "r = LOGIN_RESULT_OK")
    case False
    then show ?thesis using assms l f1 r
      by (auto simp: get_data_prepare_def account_after_def)
  next
    case True
    obtain s c2 where a: "get_account env c1 = (s, c2)" by (cases "get_account env c1")
    have f2: "account_id c2 =
                (case account_fields (server env GetAccount) of
                   None \<Rightarrow> account_id c1 | Some iu \<Rightarrow> fst iu)
            \<and> account_uid c2 =
                (case account_fields (server env GetAccount) of
                   None \<Rightarrow> account_uid c1 | Some iu \<Rightarrow> snd iu)"
      using get_account_fields [of env c1] a by simp
    obtain d c3 where g: "get_devices ops env c2 = (d, c3)" by (cases "get_devices ops env c2")
    have f3: "account_id c3 = account_id c2 \<and> account_uid c3 = account_uid c2"
      using get_devices_snd [of ops env c2] g by simp
    obtain s' c4 where q: "get_profiles env c3 = (s', c4)" by (cases "get_profiles env c3")
    have f4: "account_id c4 = account_id c3 \<and> account_uid c4 = account_uid c3"
      using get_profiles_snd [of env c3] q by simp
    show ?thesis using assms l True r a f1 f2 g f3 q f4
      by (auto simp: get_data_prepare_def account_after_def
            split: step.splits sum.splits option.splits)
  qed
qed

lemma prepare_Inr:
  assumes "get_data_prepare ops env c = Inr (dv, w, ps, c4)"
  shows "fst (login ops env c) = LOGIN_RESULT_OK
       \<and> (\<exists>body tx. server env GetAccount = Responded 200 body tx)
       \<and> (\<exists>pd tx. server env (GetProfiles (account_id c4)) = Responded 200 (Inr pd) tx
             \<and> py_iter pd = Inr ps)
       \<and> weekday env < 7 \<and> w = days ! weekday env
       \<and> (\<exists>c2. dv = fst (get_devices ops env c2))"
proof -
  obtain r c1 where l: "login ops env (c\<lparr>session := True\<rparr>) = (r, c1)"
    by (cases "login ops env (c\<lparr>session := True\<rparr>)")
  have r: "r = fst (login ops env c)"
    using login_session [where ops = ops and env = env and c = c and b = True] l by simp
  obtain s c2 where a: "get_account env c1 = (s, c2)" by (cases "get_account env c1")
  obtain d c3 where g: "get_devices ops env c2 = (d, c3)" by (cases "get_devices ops env c2")
  have f3: "account_id c3 = account_id c2"
    using get_devices_snd [of ops env c2] g by simp
  obtain s' c4' where q: "get_profiles env c3 = (s', c4')" by (cases "get_profiles env c3")
  have f4: "account_id c4' = account_id c3"
    using get_profiles_snd [of env c3] q by simp
  from assms l a g q have ok: "r = LOGIN_RESULT_OK"
    by (auto simp: get_data_prepare_def split: if_splits)
  from assms l a g q ok obtain u where s: "s = Continue u"
    by (cases s) (auto simp: get_data_prepare_def)
  from assms l a g q ok s obtain pd where s': "s' = Continue pd"
    by (cases s') (auto simp: get_data_prepare_def)
  from assms l a g q ok s s'
  have rest: "c4 = c4' \<and> dv = d \<and> day_of_week env = Inr w \<and> py_iter pd = Inr ps"
    by (auto simp: get_data_prepare_def split: sum.splits)
  have acc: "\<exists>body tx. server env GetAccount = Responded 200 body tx"
    using get_account_Continue [of env c1 u] a s by simp
  have prof: "\<exists>tx. server env (GetProfiles (account_id c3)) = Responded 200 (Inr pd) tx"
    using get_profiles_Continue [of env c3 pd] q s' by simp
  have day: "weekday env < 7 \<and> w = days ! weekday env"
    using rest by (auto simp: day_of_week_def days_def split: if_splits)
  show ?thesis using r ok acc prof day rest f4 g
    by (metis fst_conv)
qed

lemmas run_defs = family_def family_with_def tablet_def phone_def ann_entry_def bob_entry_def
  ann_rules_def ann_hours_def float_limit_def round_half_even_def floor_quotient
  account_error_def server_error_def monday_def service_def ok_def
  down_def not_found_def exact_ops_def init_def get_data_def get_data_try_def
  get_data_prepare_def login_def token_cached_def login_try_def login_ok_response_def
  new_expiry_def timedelta_range_def datetime_add_def datetime_max_def get_account_def
  get_devices_def get_devices_try_def get_profiles_def days_def day_of_week_def
  process_profile_def profile_base_def current_device_of_def get_quota_def get_quota_try_def
  get_time_def get_time_try_def and_then_def Let_def

text \<open>
  Claim C2. When login returns a result other than OK, or the account request is answered
  with a status other than 200, or the profiles request (for the account identifier the
  call has resolved) is answered with a status other than 200, get_data returns the empty
  mapping: it returns, it does not raise.
\<close>

theorem get_data_early_failure:
  assumes "fst (login ops env c) \<noteq> LOGIN_RESULT_OK
         \<or> (\<exists>status body tx. server env GetAccount = Responded status body tx \<and> status \<noteq> 200)
         \<or> (\<exists>status body tx.
               server env (GetProfiles (account_id (snd (get_data ops env c))))
                 = Responded status body tx \<and> status \<noteq> 200)"
  shows "fst (get_data ops env c) = Inr Map.empty"
proof (cases "get_data_prepare ops env c")
  case (Inl a)
  then show ?thesis by (cases a) (simp add: get_data_unfold)
next
  case (Inr b)
  obtain dv w ps c4 where b: "b = (dv, w, ps, c4)" by (cases b) auto
  note p = prepare_Inr [OF Inr [unfolded b]]
  obtain x c5 data where lp: "profiles_loop ops env dv w ps c4 Map.empty = (x, c5, data)"
    by (cases "profiles_loop ops env dv w ps c4 Map.empty") auto
  have "account_id c5 = account_id c4" using profiles_loop_frame [OF lp] by simp
  then have "account_id (snd (get_data ops env c)) = account_id c4"
    using Inr b lp by (simp add: get_data_unfold)
  then show ?thesis using assms p by auto
qed

theorem get_data_early_failure_witness:
  "server account_error GetAccount = Responded 500 (Inl ValueError) (Inr ''Internal Server Error'')
 \<and> (500::int) \<noteq> 200
 \<and> fst (get_data exact_ops account_error (init ''u'' ''p'')) = Inr Map.empty"
proof -
  have a: "server account_error GetAccount
             = Responded 500 (Inl ValueError) (Inr ''Internal Server Error'')"
    by (simp add: account_error_def server_error_def monday_def service_def)
  have "\<exists>status body tx. server account_error GetAccount = Responded status body tx
          \<and> status \<noteq> 200"
    using a by simp
  then have "fst (get_data exact_ops account_error (init ''u'' ''p'')) = Inr Map.empty"
    using get_data_early_failure [of exact_ops account_error "init ''u'' ''p''"] by blast
  then show ?thesis using a by simp
qed

text \<open>
  Claim C8, as the code has it. At the end of every call of get_data the session handle
  is unset (line 249). The cached account identifier and UID are not reset: when login
  returned OK and the account request was answered with status 200 and an object that has
  an id, they hold the id and the UID of that answer (the id when it has no uid);
  otherwise they are what they were before the call.
\<close>

theorem get_data_account_kept:
  "session (snd (get_data ops env c)) = False
 \<and> account_id (snd (get_data ops env c)) = fst (account_after ops env c)
 \<and> account_uid (snd (get_data ops env c)) = snd (account_after ops env c)"
proof (cases "get_data_prepare ops env c")
  case (Inl a)
  obtain x c1 where a: "a = (x, c1)" by (cases a)
  show ?thesis using prepare_account [of ops env c x c1] Inl a
    by (simp add: get_data_unfold)
next
  case (Inr b)
  obtain dv w ps c4 where b: "b = (dv, w, ps, c4)" by (cases b) auto
  obtain x c5 data where lp: "profiles_loop ops env dv w ps c4 Map.empty = (x, c5, data)"
    by (cases "profiles_loop ops env dv w ps c4 Map.empty") auto
  show ?thesis
    using prepare_account [of ops env c _ c4 dv w ps] Inr b lp profiles_loop_frame [OF lp]
    by (simp add: get_data_unfold)
qed

theorem get_data_account_kept_witness:
  "account_after exact_ops account_error (init ''u'' ''p'') = (JNull, JNull)
 \<and> session (snd (get_data exact_ops account_error (init ''u'' ''p''))) = False
 \<and> account_id (snd (get_data exact_ops account_error (init ''u'' ''p''))) = JNull
 \<and> account_uid (snd (get_data exact_ops account_error (init ''u'' ''p''))) = JNull"
proof -
  have a: "account_after exact_ops account_error (init ''u'' ''p'') = (JNull, JNull)"
    by (simp add: account_after_def account_error_def server_error_def monday_def
          service_def init_def)
  show ?thesis
    using get_data_account_kept [of exact_ops account_error "init ''u'' ''p''"] a by simp
qed

text \<open>
  Claim C8 as stated fails: after a call that fetched the account, the cached account
  identifier and UID are those of the account, not unset.
\<close>

theorem get_data_account_not_reset_counterexample:
  "account_id (init ''u'' ''p'' :: rat client) = JNull
 \<and> account_id (snd (get_data exact_ops family (init ''u'' ''p''))) = JInt 42
 \<and> account_uid (snd (get_data exact_ops family (init ''u'' ''p''))) = JStr ''acc-42''"
  by (simp add: run_defs)

section \<open>Properties of the snapshots\<close>

lemma days_day_code: "wd < 7 \<Longrightarrow> days ! wd = day_code wd"
proof -
  assume "wd < 7"
  then have "wd = 0 \<or> wd = 1 \<or> wd = 2 \<or> wd = 3 \<or> wd = 4 \<or> wd = 5 \<or> wd = 6" by arith
  then show ?thesis by (auto simp: days_def day_code_def)
qed

lemma get_quota_try_spec:
  "(case get_quota_try env (day_code wd) rq of Inr (Some q) \<Rightarrow> q | _ \<Rightarrow> JInt 0)
     = quota_of_rules wd (server env rq)"
proof (cases "server env rq")
  case (Failed e)
  then show ?thesis by (simp add: get_quota_try_def quota_of_rules_def)
next
  case (Responded status body tx)
  show ?thesis
  proof (cases body)
    case (Inl e)
    then show ?thesis using Responded
      by (simp add: get_quota_try_def quota_of_rules_def and_then_def)
  next
    case (Inr rules_data)
    show ?thesis
    proof (cases rules_data)
      case (JObj rules)
      show ?thesis
      proof (cases "map_of rules ''time_restrictions''")
        case None
        then show ?thesis using Responded Inr JObj
          by (simp add: get_quota_try_def quota_of_rules_def and_then_def)
      next
        case (Some tr)
        then show ?thesis using Responded Inr JObj
          by (cases tr)
             (auto simp: get_quota_try_def quota_of_rules_def and_then_def
                   split: option.splits json.splits)
      qed
    qed (use Responded Inr in \<open>simp_all add: get_quota_try_def quota_of_rules_def and_then_def\<close>)
  qed
qed

lemma get_quota_fst:
  "fst (get_quota env dow c pd) =
     pd\<lparr>quota := (case get_quota_try env dow (GetRules (account_id c) (profile_id pd)) of
                    Inr (Some q) \<Rightarrow> q | _ \<Rightarrow> JInt 0)\<rparr>"
  by (simp add: get_quota_def Let_def split: sum.splits option.splits)

lemma get_time_fst:
  "fst (get_time ops env c pd) =
     pd\<lparr>time := (case get_time_try ops env (GetHourlySummary (account_uid c) (uid pd) (today env)) of
                   Inr (Some t) \<Rightarrow> t | _ \<Rightarrow> JInt 0)\<rparr>"
  by (simp add: get_time_def Let_def split: sum.splits option.splits)




lemma check_devices_tampered:
  "check_devices ops devices ids (f, t) = Inr (f', t') \<Longrightarrow>
     (if tampered ops devices ids = [] then f' = f \<and> t' = t
      else f' = JBool True \<and> t' = device_name (last (tampered ops devices ids)))"
proof (induction ids arbitrary: f t)
  case Nil
  then show ?case by (simp add: tampered_def List.map_filter_simps)
next
  case (Cons d ids)
  show ?case
  proof (cases "alerted_device ops devices d")
    case None
    then have "check_devices ops devices ids (f, t) = Inr (f', t')"
      using Cons.prems
      by (auto simp: alerted_device_def split: sum.splits option.splits if_splits)
    from Cons.IH [OF this] None show ?thesis
      by (simp add: tampered_def List.map_filter_simps)
  next
    case (Some device)
    then have "check_devices ops devices ids (JBool True, device_name device) = Inr (f', t')"
      using Cons.prems
      by (auto simp: alerted_device_def device_name_def split: sum.splits option.splits if_splits)
    from Cons.IH [OF this] Some show ?thesis
      by (simp add: tampered_def List.map_filter_simps)
  qed
qed

lemma tampered_empty:
  "tampered ops devices ids = [] \<longleftrightarrow> (\<forall>d\<in>set ids. alerted_device ops devices d = None)"
  by (induction ids) (auto simp: tampered_def List.map_filter_simps split: option.splits)

lemma profile_base_Inr:
  assumes "profile_base ops devices p = Inr pd0"
  shows "py_getitem p ''id'' = Inr (profile_id pd0)
       \<and> py_get p ''uid'' (profile_id pd0) = Inr (uid pd0)
       \<and> check_devices ops devices (device_ids_of p) (JBool False, JNull)
            = Inr (unauthorized_remove pd0, device_tampered pd0)"
  using assms
  by (auto simp: profile_base_def and_then_def device_ids_of_def split: sum.splits)

lemma process_profile_Inr:
  assumes "process_profile ops env devices dow c p = (Inr (k, pd), c')"
  shows "\<exists>pd0. profile_base ops devices p = Inr pd0
           \<and> py_key ops (profile_id pd0) = Inr k
           \<and> pd = pd0\<lparr>quota :=
                      (case get_quota_try env dow (GetRules (account_id c) (profile_id pd0)) of
                         Inr (Some q) \<Rightarrow> q | _ \<Rightarrow> JInt 0),
                    time :=
                      (case get_time_try ops env
                              (GetHourlySummary (account_uid c) (uid pd0) (today env)) of
                         Inr (Some t) \<Rightarrow> t | _ \<Rightarrow> JInt 0)\<rparr>"
proof (cases "profile_base ops devices p")
  case (Inl e)
  then show ?thesis using assms by (simp add: process_profile_def)
next
  case (Inr pd0)
  obtain pd1 c1 where q: "get_quota env dow c pd0 = (pd1, c1)" by (cases "get_quota env dow c pd0")
  obtain pd2 c2 where t: "get_time ops env c1 pd1 = (pd2, c2)" by (cases "get_time ops env c1 pd1")
  have pd1: "pd1 = pd0\<lparr>quota :=
                      (case get_quota_try env dow (GetRules (account_id c) (profile_id pd0)) of
                         Inr (Some q) \<Rightarrow> q | _ \<Rightarrow> JInt 0)\<rparr>"
    using get_quota_fst [of env dow c pd0] q by simp
  have c1: "account_uid c1 = account_uid c"
    using get_quota_snd [of env dow c pd0] q by simp
  have pd2: "pd2 = pd1\<lparr>time :=
                      (case get_time_try ops env
                              (GetHourlySummary (account_uid c1) (uid pd1) (today env)) of
                         Inr (Some t) \<Rightarrow> t | _ \<Rightarrow> JInt 0)\<rparr>"
    using get_time_fst [of ops env c1 pd1] t by simp
  from assms Inr q t have "py_key ops (profile_id pd2) = Inr k \<and> pd = pd2"
    by (auto simp: process_profile_def split: sum.splits)
  then show ?thesis using Inr pd1 pd2 c1 by simp
qed

lemma profiles_loop_entries:
  assumes "profiles_loop ops env devices dow ps c data = (r, c', data')"
    and "data' k = Some pd"
  shows "data k = Some pd
       \<or> (\<exists>p\<in>set ps. \<exists>c1 c2. account_id c1 = account_id c \<and> account_uid c1 = account_uid c
             \<and> process_profile ops env devices dow c1 p = (Inr (k, pd), c2))"
  using assms
proof (induction ps arbitrary: c data)
  case Nil
  then show ?case by simp
next
  case (Cons p ps)
  obtain x c1 where pp: "process_profile ops env devices dow c p = (x, c1)"
    by (cases "process_profile ops env devices dow c p")
  have fr: "account_id c1 = account_id c \<and> account_uid c1 = account_uid c"
    using process_profile_frame [of ops env devices dow c p] pp by simp
  show ?case
  proof (cases x)
    case (Inl e)
    then show ?thesis using Cons.prems pp by simp
  next
    case (Inr kp)
    obtain k0 pd0 where kp: "kp = (k0, pd0)" by (cases kp)
    from Cons.prems pp Inr kp
    have lp: "profiles_loop ops env devices dow ps c1 (data(k0 \<mapsto> pd0)) = (r, c', data')"
      by simp
    from Cons.IH [OF lp Cons.prems(2)]
    consider (here) "(data(k0 \<mapsto> pd0)) k = Some pd"
      | (later) "\<exists>q\<in>set ps. \<exists>c2 c3. account_id c2 = account_id c1
             \<and> account_uid c2 = account_uid c1
             \<and> process_profile ops env devices dow c2 q = (Inr (k, pd), c3)"
      by blast
    then show ?thesis
    proof cases
      case here
      show ?thesis
      proof (cases "k = k0")
        case True
        then have "process_profile ops env devices dow c p = (Inr (k, pd), c1)"
          using here pp Inr kp by simp
        then show ?thesis by auto
      next
        case False
        then show ?thesis using here by simp
      qed
    next
      case later
      then show ?thesis using fr by auto
    qed
  qed
qed

lemma get_data_entries:
  assumes "fst (get_data ops env c) = Inr data" and "data k = Some pd"
  shows "\<exists>devices ps c4 p c1 c2.
           get_data_prepare ops env c = Inr (devices, day_code (weekday env), ps, c4)
         \<and> weekday env < 7 \<and> p \<in> set ps
         \<and> account_id c1 = account_id (snd (get_data ops env c))
         \<and> account_uid c1 = account_uid (snd (get_data ops env c))
         \<and> process_profile ops env devices (day_code (weekday env)) c1 p = (Inr (k, pd), c2)"
proof (cases "get_data_prepare ops env c")
  case (Inl a)
  then show ?thesis using assms by (cases a) (auto simp: get_data_unfold)
next
  case (Inr b)
  obtain dv w ps c4 where b: "b = (dv, w, ps, c4)" by (cases b) auto
  note p = prepare_Inr [OF Inr [unfolded b]]
  then have w: "w = day_code (weekday env)" and wd: "weekday env < 7"
    by (simp_all add: days_day_code)
  obtain x c5 data' where lp: "profiles_loop ops env dv w ps c4 Map.empty = (x, c5, data')"
    by (cases "profiles_loop ops env dv w ps c4 Map.empty") auto
  have d: "data' = data" and c5: "snd (get_data ops env c) = c5\<lparr>session := False\<rparr>"
    using assms(1) Inr b lp by (simp_all add: get_data_unfold)
  have fr: "account_id c5 = account_id c4 \<and> account_uid c5 = account_uid c4"
    using profiles_loop_frame [OF lp] by simp
  have "data' k = Some pd" using d assms(2) by simp
  from profiles_loop_entries [OF lp this]
  obtain q c1 c2 where "q \<in> set ps" "account_id c1 = account_id c4"
    "account_uid c1 = account_uid c4" "process_profile ops env dv w c1 q = (Inr (k, pd), c2)"
    by auto
  then show ?thesis using Inr b w wd c5 fr by auto
qed






lemma process_profile_key:
  "process_profile ops env devices dow c p = (Inr (k, pd), c') \<Longrightarrow> profile_key ops p = Some k"
proof -
  assume "process_profile ops env devices dow c p = (Inr (k, pd), c')"
  from process_profile_Inr [OF this] obtain pd0 where
    "profile_base ops devices p = Inr pd0" "py_key ops (profile_id pd0) = Inr k" by blast
  then show ?thesis using profile_base_Inr [of ops devices p pd0] by (simp add: profile_key_def)
qed


lemma profiles_loop_append:
  "profiles_loop ops env devices dow (xs @ ys) c data =
     (case profiles_loop ops env devices dow xs c data of
        (None, c1, d1) \<Rightarrow> profiles_loop ops env devices dow ys c1 d1
      | (Some e, c1, d1) \<Rightarrow> (Some e, c1, d1))"
  by (induction xs arbitrary: c data) (auto split: prod.splits sum.splits option.splits)

lemma profiles_loop_dom:
  "profiles_loop ops env devices dow ps c data = (None, c', data') \<Longrightarrow>
   Some ` dom data' = Some ` dom data \<union> profile_key ops ` set ps"
proof (induction ps arbitrary: c data)
  case Nil
  then show ?case by simp
next
  case (Cons p ps)
  obtain x c1 where pp: "process_profile ops env devices dow c p = (x, c1)"
    by (cases "process_profile ops env devices dow c p")
  show ?case
  proof (cases x)
    case (Inl e)
    then show ?thesis using Cons.prems pp by simp
  next
    case (Inr kp)
    obtain k pd where kp: "kp = (k, pd)" by (cases kp)
    have key: "profile_key ops p = Some k" using process_profile_key pp Inr kp by blast
    from Cons.prems pp Inr kp
    have "profiles_loop ops env devices dow ps c1 (data(k \<mapsto> pd)) = (None, c', data')" by simp
    from Cons.IH [OF this] key show ?thesis by auto
  qed
qed








lemma py_getitem_exn: "py_getitem v k = Inl e \<Longrightarrow> e = KeyError \<or> e = TypeError"
  by (cases v) (auto split: option.splits)

lemma py_get_exn: "py_get v k d = Inl e \<Longrightarrow> e = AttributeError"
  by (cases v) (auto split: option.splits)

lemma py_iter_exn: "py_iter v = Inl e \<Longrightarrow> e = TypeError"
  by (cases v) auto

lemma py_key_exn: "py_key ops v = Inl e \<Longrightarrow> e = TypeError"
  by (cases v) (auto split: option.splits)

lemma check_devices_exn:
  "check_devices ops devices ids flags = Inl e \<Longrightarrow> e = TypeError \<or> e = AttributeError"
proof (induction ids arbitrary: flags)
  case Nil
  then show ?case by simp
next
  case (Cons d ids)
  then show ?case
    by (auto split: sum.splits option.splits if_splits dest: py_key_exn py_get_exn)
qed

lemma current_device_of_exn:
  "current_device_of ops devices online d = Inl e \<Longrightarrow> e = TypeError \<or> e = AttributeError"
  by (auto simp: current_device_of_def and_then_def
        split: if_splits sum.splits option.splits dest: py_key_exn py_get_exn)

lemma profile_base_exn:
  assumes "profile_base ops devices p = Inl e"
  shows "e = KeyError \<or> e = TypeError \<or> e = AttributeError"
  using assms
  by (auto simp: profile_base_def and_then_def split: sum.splits
        dest: py_getitem_exn py_get_exn py_iter_exn check_devices_exn current_device_of_exn)

lemma process_profile_Inl:
  "fst (process_profile ops env devices dow c p) = Inl e \<longleftrightarrow>
     profile_base ops devices p = Inl e
   \<or> (\<exists>pd0. profile_base ops devices p = Inr pd0 \<and> py_key ops (profile_id pd0) = Inl e)"
proof (cases "profile_base ops devices p")
  case (Inl x)
  then show ?thesis by (simp add: process_profile_def)
next
  case (Inr pd0)
  obtain pd1 c1 where q: "get_quota env dow c pd0 = (pd1, c1)" by (cases "get_quota env dow c pd0")
  obtain pd2 c2 where t: "get_time ops env c1 pd1 = (pd2, c2)" by (cases "get_time ops env c1 pd1")
  have "profile_id pd2 = profile_id pd0"
    using get_quota_fst [of env dow c pd0] get_time_fst [of ops env c1 pd1] q t by simp
  then show ?thesis using Inr q t by (auto simp: process_profile_def split: sum.splits)
qed

lemma process_profile_exn:
  "fst (process_profile ops env devices dow c p) = Inl e \<Longrightarrow>
   e = KeyError \<or> e = TypeError \<or> e = AttributeError"
  using profile_base_exn py_key_exn by (auto simp: process_profile_Inl) blast+

lemmas snapshot_defs = float_family_def float_hours_def huge_family_def huge_hours_def
  family_data_def ann_def bob_def family_devices_def null_alerts_def
  null_alerts_tablet_def null_status_def cy_entry_def

lemma family_run: "fst (get_data exact_ops family (init ''u'' ''p'')) = Inr family_data"
  by (simp add: run_defs snapshot_defs)

lemma family_account:
  "account_id (snd (get_data exact_ops family (init ''u'' ''p''))) = JInt 42
 \<and> account_uid (snd (get_data exact_ops family (init ''u'' ''p''))) = JStr ''acc-42''"
  by (simp add: run_defs)

lemma family_prepare:
  "\<exists>c4. get_data_prepare exact_ops family (init ''u'' ''p'')
          = Inr (family_devices, ''mon'', [ann_entry, bob_entry], c4)"
  by (simp add: run_defs snapshot_defs)


lemma null_status_prepare:
  "\<exists>c4. get_data_prepare exact_ops null_status (init ''u'' ''p'')
          = Inr (family_devices, ''mon'', [ann_entry] @ cy_entry # [bob_entry], c4)
        \<and> (\<exists>c5. profiles_loop exact_ops null_status family_devices ''mon'' [ann_entry] c4 Map.empty
                   = (None, c5, [KInt 1 \<mapsto> ann])
              \<and> fst (process_profile exact_ops null_status family_devices ''mon'' c5 cy_entry)
                   = Inl AttributeError)"
  by (simp add: run_defs snapshot_defs)

subsection \<open>The claims about the snapshots\<close>




text \<open>
  Claim C6. For every profile snapshot in the mapping get_data returns, the quota field is
  the value stored under today's three-letter day code (Monday 0 is "mon", Sunday 6 is
  "sun") in the quotas of the time restrictions of the rules response for that profile,
  and it is 0 when the day key is absent, when the time restrictions or the quotas are
  absent, and when the rules request fails or is answered with a status other than 200
  (in all these cases \<open>rules_quotas\<close> is \<open>None\<close> or has no entry for the day).
\<close>

theorem get_data_quota:
  assumes "fst (get_data ops env c) = Inr data" and "data k = Some pd"
  shows "weekday env < 7
       \<and> quota pd =
           (case rules_quotas
                   (server env (GetRules (account_id (snd (get_data ops env c))) (profile_id pd))) of
              None \<Rightarrow> JInt 0
            | Some quotas \<Rightarrow>
                (case map_of quotas (day_code (weekday env)) of None \<Rightarrow> JInt 0 | Some v \<Rightarrow> v))"
proof -
  from get_data_entries [OF assms]
  obtain devices ps c4 p c1 c2 where wd: "weekday env < 7"
    and a: "account_id c1 = account_id (snd (get_data ops env c))"
    and pp: "process_profile ops env devices (day_code (weekday env)) c1 p = (Inr (k, pd), c2)"
    by blast
  from process_profile_Inr [OF pp] obtain pd0 where
    pd: "pd = pd0\<lparr>quota :=
            (case get_quota_try env (day_code (weekday env))
                    (GetRules (account_id c1) (profile_id pd0)) of
               Inr (Some q) \<Rightarrow> q | _ \<Rightarrow> JInt 0),
          time :=
            (case get_time_try ops env (GetHourlySummary (account_uid c1) (uid pd0) (today env)) of
               Inr (Some t) \<Rightarrow> t | _ \<Rightarrow> JInt 0)\<rparr>"
    by blast
  have i: "profile_id pd = profile_id pd0" using pd by simp
  have "quota pd =
          (case get_quota_try env (day_code (weekday env))
                  (GetRules (account_id c1) (profile_id pd0)) of
             Inr (Some q) \<Rightarrow> q | _ \<Rightarrow> JInt 0)"
    using pd by simp
  then have "quota pd =
          quota_of_rules (weekday env) (server env (GetRules (account_id c1) (profile_id pd)))"
    by (simp add: get_quota_try_spec i)
  then show ?thesis using wd a by (simp add: quota_of_rules_def)
qed

theorem get_data_quota_witness:
  "fst (get_data exact_ops family (init ''u'' ''p'')) = Inr family_data
 \<and> family_data (KInt 1) = Some ann
 \<and> rules_quotas (server family (GetRules (JInt 42) (JInt 1))) = Some [(''mon'', JInt 90)]
 \<and> weekday family = 0 \<and> day_code 0 = ''mon''
 \<and> quota ann = JInt 90"
proof -
  have d: "family_data (KInt 1) = Some ann" by (simp add: family_data_def)
  have r: "rules_quotas (server family (GetRules (JInt 42) (JInt 1))) = Some [(''mon'', JInt 90)]"
    by (simp add: run_defs)
  have w: "weekday family = 0" "day_code 0 = ''mon''"
    by (simp_all add: run_defs day_code_def)
  have i: "profile_id ann = JInt 1" by (simp add: ann_def)
  show ?thesis
    using get_data_quota [OF family_run d] family_run d r w i family_account by simp
qed




text \<open>
  Claim C9. Every profile snapshot in the mapping get_data returns comes from a profile
  entry of the response with that key, for which: the flag \<^verbatim>\<open>unauthorized_remove\<close> is True
  if and only if at least one of the entry's device identifiers refers, in the fetched
  device mapping, to a device that carries an \<^verbatim>\<open>unauthorized_remove\<close> alert; otherwise the
  flag is False and \<^verbatim>\<open>device_tampered\<close> is None; when the flag is True, \<^verbatim>\<open>device_tampered\<close>
  is the name of the tampered device (the last one, if there are several).
\<close>

theorem get_data_tamper:
  assumes "get_data_prepare ops env c = Inr (devices, dow, ps, c4)"
    and "fst (get_data ops env c) = Inr data" and "data k = Some pd"
  shows "\<exists>p\<in>set ps. profile_key ops p = Some k
           \<and> (unauthorized_remove pd = JBool True \<longleftrightarrow>
                (\<exists>d\<in>set (device_ids_of p). alerted_device ops devices d \<noteq> None))
           \<and> (unauthorized_remove pd \<noteq> JBool True \<longrightarrow>
                unauthorized_remove pd = JBool False \<and> device_tampered pd = JNull)
           \<and> (unauthorized_remove pd = JBool True \<longrightarrow>
                device_tampered pd = device_name (last (tampered ops devices (device_ids_of p))))"
proof -
  from get_data_entries [OF assms(2,3)] assms(1)
  obtain p c1 c2 where p: "p \<in> set ps"
    and pp: "process_profile ops env devices (day_code (weekday env)) c1 p = (Inr (k, pd), c2)"
    by auto
  from process_profile_Inr [OF pp] obtain pd0 where
    b: "profile_base ops devices p = Inr pd0" and k: "py_key ops (profile_id pd0) = Inr k"
    and pd: "pd = pd0\<lparr>quota :=
            (case get_quota_try env (day_code (weekday env))
                    (GetRules (account_id c1) (profile_id pd0)) of
               Inr (Some q) \<Rightarrow> q | _ \<Rightarrow> JInt 0),
          time :=
            (case get_time_try ops env (GetHourlySummary (account_uid c1) (uid pd0) (today env)) of
               Inr (Some t) \<Rightarrow> t | _ \<Rightarrow> JInt 0)\<rparr>"
    by blast
  have f: "unauthorized_remove pd = unauthorized_remove pd0"
    and t: "device_tampered pd = device_tampered pd0"
    using pd by simp_all
  note pb = profile_base_Inr [OF b]
  have key: "profile_key ops p = Some k" using pb k by (simp add: profile_key_def)
  from pb have "check_devices ops devices (device_ids_of p) (JBool False, JNull)
                  = Inr (unauthorized_remove pd, device_tampered pd)"
    using f t by simp
  from check_devices_tampered [OF this]
  have "if tampered ops devices (device_ids_of p) = []
        then unauthorized_remove pd = JBool False \<and> device_tampered pd = JNull
        else unauthorized_remove pd = JBool True
           \<and> device_tampered pd = device_name (last (tampered ops devices (device_ids_of p)))" .
  then have "(unauthorized_remove pd = JBool True \<longleftrightarrow>
                (\<exists>d\<in>set (device_ids_of p). alerted_device ops devices d \<noteq> None))
           \<and> (unauthorized_remove pd \<noteq> JBool True \<longrightarrow>
                unauthorized_remove pd = JBool False \<and> device_tampered pd = JNull)
           \<and> (unauthorized_remove pd = JBool True \<longrightarrow>
                device_tampered pd = device_name (last (tampered ops devices (device_ids_of p))))"
    using tampered_empty [of ops devices "device_ids_of p"]
    by (auto split: if_splits)
  then show ?thesis using p key by blast
qed

theorem get_data_tamper_witness:
  "fst (get_data exact_ops family (init ''u'' ''p'')) = Inr family_data
 \<and> family_data (KInt 1) = Some ann
 \<and> profile_key exact_ops ann_entry = Some (KInt 1)
 \<and> profile_key exact_ops bob_entry = Some (KInt 2)
 \<and> device_ids_of ann_entry = [JInt 7, JInt 8]
 \<and> alerted_device exact_ops family_devices (JInt 7) = Some tablet
 \<and> tampered exact_ops family_devices [JInt 7, JInt 8] = [tablet]
 \<and> device_name tablet = JStr ''Tablet''
 \<and> unauthorized_remove ann = JBool True
 \<and> device_tampered ann = JStr ''Tablet''"
proof -
  have d: "family_data (KInt 1) = Some ann" by (simp add: family_data_def)
  have k: "profile_key exact_ops ann_entry = Some (KInt 1)"
    "profile_key exact_ops bob_entry = Some (KInt 2)"
    by (simp_all add: profile_key_def ann_entry_def bob_entry_def)
  have i: "device_ids_of ann_entry = [JInt 7, JInt 8]"
    by (simp add: device_ids_of_def ann_entry_def)
  have a: "alerted_device exact_ops family_devices (JInt 7) = Some tablet"
    "alerted_device exact_ops family_devices (JInt 8) = None"
    by (simp_all add: alerted_device_def family_devices_def tablet_def phone_def)
  have t: "tampered exact_ops family_devices [JInt 7, JInt 8] = [tablet]"
    using a by (simp add: tampered_def List.map_filter_simps)
  have n: "device_name tablet = JStr ''Tablet''" by (simp add: device_name_def tablet_def)
  obtain c4 where p: "get_data_prepare exact_ops family (init ''u'' ''p'')
                        = Inr (family_devices, ''mon'', [ann_entry, bob_entry], c4)"
    using family_prepare by blast
  from get_data_tamper [OF p family_run d]
  obtain e where e: "e \<in> set [ann_entry, bob_entry]" "profile_key exact_ops e = Some (KInt 1)"
    and f: "unauthorized_remove ann = JBool True \<longleftrightarrow>
              (\<exists>x\<in>set (device_ids_of e). alerted_device exact_ops family_devices x \<noteq> None)"
    and g: "unauthorized_remove ann = JBool True \<longrightarrow>
              device_tampered ann = device_name (last (tampered exact_ops family_devices (device_ids_of e)))"
    by blast
  from e k have "e = ann_entry" by auto
  with f g i a t n have "unauthorized_remove ann = JBool True \<and> device_tampered ann = JStr ''Tablet''"
    by simp
  then show ?thesis using family_run d k i a t n by simp
qed

text \<open>
  Claim C10, as the code has it. When the loop of get_data raises on an entry \<open>bad\<close> after
  the entries \<open>done\<close> before it were processed and stored, get_data returns (it does not
  raise) the mapping \<open>partial\<close> the loop had built from \<open>done\<close>: its keys are the identifiers
  of \<open>done\<close>, and it is not empty when \<open>done\<close> is not empty. The exception is a KeyError, a
  TypeError or an AttributeError of the assembly of the snapshot; whether and how an
  entry raises does not depend on the answers of the service or on the client, so a
  timeout or transport error of a rules or hourly-summary request never ends the loop.
\<close>

theorem get_data_partial:
  assumes "get_data_prepare ops env c = Inr (devices, dow, done @ bad # rest, c4)"
    and "profiles_loop ops env devices dow done c4 Map.empty = (None, c5, partial)"
    and "fst (process_profile ops env devices dow c5 bad) = Inl e"
  shows "fst (get_data ops env c) = Inr partial
       \<and> Some ` dom partial = profile_key ops ` set done
       \<and> (done \<noteq> [] \<longrightarrow> partial \<noteq> Map.empty)
       \<and> (e = KeyError \<or> e = TypeError \<or> e = AttributeError)
       \<and> (\<forall>p e' env' c'.
             fst (process_profile ops env devices dow c5 p) = Inl e' \<longleftrightarrow>
             fst (process_profile ops env' devices dow c' p) = Inl e')"
proof -
  obtain c6 where b: "process_profile ops env devices dow c5 bad = (Inl e, c6)"
    using assms(3) by (cases "process_profile ops env devices dow c5 bad") simp
  have "profiles_loop ops env devices dow (done @ bad # rest) c4 Map.empty = (Some e, c6, partial)"
    using assms(2) b by (simp add: profiles_loop_append)
  then have r: "fst (get_data ops env c) = Inr partial"
    using assms(1) by (simp add: get_data_unfold)
  have d: "Some ` dom partial = profile_key ops ` set done"
    using profiles_loop_dom [OF assms(2)] by simp
  have n: "done \<noteq> [] \<longrightarrow> partial \<noteq> Map.empty"
  proof
    assume "done \<noteq> []"
    then have "profile_key ops ` set done \<noteq> {}" by simp
    then have "dom partial \<noteq> {}" using d by auto
    then show "partial \<noteq> Map.empty" by auto
  qed
  have k: "e = KeyError \<or> e = TypeError \<or> e = AttributeError"
    using process_profile_exn [OF assms(3)] .
  have i: "\<forall>p e' env' c'.
             fst (process_profile ops env devices dow c5 p) = Inl e' \<longleftrightarrow>
             fst (process_profile ops env' devices dow c' p) = Inl e'"
    by (simp add: process_profile_Inl)
  from r d n k i show ?thesis by (intro conjI)
qed

theorem get_data_partial_witness:
  "fst (get_data exact_ops null_status (init ''u'' ''p'')) = Inr [KInt 1 \<mapsto> ann]
 \<and> Some ` dom [KInt 1 \<mapsto> ann] = profile_key exact_ops ` set [ann_entry]
 \<and> [KInt 1 \<mapsto> ann] \<noteq> Map.empty"
proof -
  obtain c4 c5 where
    p: "get_data_prepare exact_ops null_status (init ''u'' ''p'')
          = Inr (family_devices, ''mon'', [ann_entry] @ cy_entry # [bob_entry], c4)"
    and l: "profiles_loop exact_ops null_status family_devices ''mon'' [ann_entry] c4 Map.empty
              = (None, c5, [KInt 1 \<mapsto> ann])"
    and b: "fst (process_profile exact_ops null_status family_devices ''mon'' c5 cy_entry)
              = Inl AttributeError"
    using null_status_prepare by blast
  from get_data_partial [OF p l b] show ?thesis by simp
qed

text \<open>
  Claim C10 as stated fails for a timeout: the profile list is Ann, then Bob; the request
  for Bob's hourly summary raises a timeout inside the loop, after Ann's snapshot was
  stored; the handler of line 234 absorbs it and get_data returns both profiles, not
  only the one processed before the failure.
\<close>

theorem get_data_timeout_in_loop_counterexample:
  "server family (GetProfiles (JInt 42)) = ok (JList [ann_entry, bob_entry])
 \<and> server family (GetHourlySummary (JStr ''acc-42'') (JInt 2) ''2026-11-02'')
     = Failed TimeoutError
 \<and> fst (get_data exact_ops family (init ''u'' ''p''))
     = Inr [KInt 1 \<mapsto> ann, KInt 2 \<mapsto> bob]"
  by (simp add: run_defs snapshot_defs)

end
